theory Spec2Isabelle
  imports Complex_Main "HOL-Library.Word" "HOL-Library.Multiset"
begin

section \<open>Strings, numbers and the host\<close>

text \<open>
  A JavaScript string is a sequence of UTF-16 code units, and \<open>length\<close>, \<open>includes\<close>,
  \<open>startsWith\<close> and regular expressions without the \<open>u\<close> flag work on code units.
  Numbers are IEEE doubles in the source. In the model a number is a rational: the one in
  a field, an argument or a literal stands for the double nearest to it (\<open>7 / 10\<close> is
  the literal \<open>0.7\<close>), and arithmetic rounds as the source does, see below.
\<close>

type_synonym cu = "16 word"
type_synonym jsstring = "cu list"

definition js :: "string \<Rightarrow> jsstring" where
  \<comment> \<open>an ASCII literal of the source\<close>
  "js s = map (\<lambda>c. of_nat (of_char c)) s"

definition startsWith :: "jsstring \<Rightarrow> jsstring \<Rightarrow> bool" where
  "startsWith text p = (take (length p) text = p)"

fun jsIncludes :: "jsstring \<Rightarrow> jsstring \<Rightarrow> bool" where
  "jsIncludes [] p = (p = [])"
| "jsIncludes (c # cs) p = (startsWith (c # cs) p \<or> jsIncludes cs p)"

subsection \<open>Double arithmetic\<close>

text \<open>
  A finite double is a whole multiple of a power of two with at most 53 significant bits.
  \<open>dbl x\<close> is the exact value of the double nearest to \<open>x\<close>, ties to the even
  significand (the rounding of IEEE 754, with the spacing of the subnormal numbers at the
  bottom of the range).
  The sum, difference and product of two doubles are the roundings of the exact results.
  Overflow to infinity and NaN are outside the model: the scores of the source stay far
  from them.
\<close>

definition pow2 :: "int \<Rightarrow> rat" where
  "pow2 e = (if 0 \<le> e then 2 ^ nat e else 1 / 2 ^ nat (- e))"

function binExp :: "rat \<Rightarrow> int" where
  \<comment> \<open>for a positive \<open>x\<close>, the exponent \<open>e\<close> with \<open>pow2 e \<le> x < pow2 (e + 1)\<close>\<close>
  "binExp x =
     (if x \<le> 0 then 0
      else if 2 \<le> x then binExp (x / 2) + 1
      else if x < 1 then binExp (x * 2) - 1
      else 0)"
  by pat_completeness auto
termination
proof (relation "measure (\<lambda>x. 2 * nat \<lceil>1 / x\<rceil> + nat \<lceil>x\<rceil>)")
  show "wf (measure (\<lambda>x::rat. 2 * nat \<lceil>1 / x\<rceil> + nat \<lceil>x\<rceil>))" by simp
next
  fix x :: rat
  assume "\<not> x \<le> 0" and x: "2 \<le> x"
  have a: "\<lceil>x / 2\<rceil> < \<lceil>x\<rceil>"
  proof -
    have "x / 2 \<le> x - 1" using x by simp
    then have "\<lceil>x / 2\<rceil> \<le> \<lceil>x - 1\<rceil>" by (rule ceiling_mono)
    then show ?thesis by simp
  qed
  have pos: "0 < \<lceil>x / 2\<rceil>" using x by (simp add: ceiling_less_iff)
  have b: "\<lceil>1 / (x / 2)\<rceil> = 1" "\<lceil>1 / x\<rceil> = 1"
    using x by (auto simp: ceiling_eq_iff field_simps)
  show "(x / 2, x) \<in> measure (\<lambda>x. 2 * nat \<lceil>1 / x\<rceil> + nat \<lceil>x\<rceil>)"
    using a pos b by simp
next
  fix x :: rat
  assume x0: "\<not> x \<le> 0" and "\<not> 2 \<le> x" and x1: "x < 1"
  let ?y = "1 / x"
  have y: "1 < ?y" using x0 x1 by (simp add: field_simps)
  have a: "\<lceil>?y / 2\<rceil> < \<lceil>?y\<rceil>"
  proof (cases "?y \<le> 2")
    case True
    then have "\<lceil>?y / 2\<rceil> \<le> 1" by (simp add: ceiling_le_iff)
    moreover have "1 < \<lceil>?y\<rceil>" using y by (simp add: less_ceiling_iff)
    ultimately show ?thesis by linarith
  next
    case False
    then have "?y / 2 \<le> ?y - 1" by simp
    then have "\<lceil>?y / 2\<rceil> \<le> \<lceil>?y - 1\<rceil>" by (rule ceiling_mono)
    then show ?thesis by simp
  qed
  have pos: "0 < \<lceil>?y / 2\<rceil>" using x0 by (simp add: ceiling_less_iff)
  have c: "\<lceil>x\<rceil> = 1" using x0 x1 by (auto simp: ceiling_eq_iff)
  have d: "\<lceil>x * 2\<rceil> \<le> 2" using x1 by (simp add: ceiling_le_iff)
  have d0: "0 < \<lceil>x * 2\<rceil>" using x0 by (simp add: ceiling_less_iff)
  have e: "1 / (x * 2) = ?y / 2" by simp
  show "(x * 2, x) \<in> measure (\<lambda>x. 2 * nat \<lceil>1 / x\<rceil> + nat \<lceil>x\<rceil>)"
    using a pos c d d0 unfolding in_measure e by linarith
qed

declare binExp.simps [simp del]

definition roundHalfEven :: "rat \<Rightarrow> int" where
  \<comment> \<open>the nearest integer, the even one of two that are equally near\<close>
  "roundHalfEven q =
     (let f = \<lfloor>q\<rfloor>; d = q - of_int f
      in if d < 1 / 2 then f else if 1 / 2 < d then f + 1 else if even f then f else f + 1)"

definition dbl :: "rat \<Rightarrow> rat" where
  "dbl x =
     (if x = 0 then 0
      else let u = pow2 (max (binExp \<bar>x\<bar> - 52) (- 1074))
           in sgn x * of_int (roundHalfEven (\<bar>x\<bar> / u)) * u)"

definition addD :: "rat \<Rightarrow> rat \<Rightarrow> rat" where
  \<comment> \<open>\<open>a + b\<close> of two doubles\<close>
  "addD a b = dbl (a + b)"

definition subD :: "rat \<Rightarrow> rat \<Rightarrow> rat" where
  "subD a b = dbl (a - b)"

definition mulD :: "rat \<Rightarrow> rat \<Rightarrow> rat" where
  "mulD a b = dbl (a * b)"

subsection \<open>The host\<close>

text \<open>
  The regular expressions of the source that are more than a character class are run by
  the host's regular-expression engine, case mapping by the host's Unicode tables, and
  morphology by a dictionary package. None is code of the repository: they are parameters
  of the model (the record \<open>host\<close>), and every theorem below holds for all of them. A regular expression is named after the constant that
  holds it (with its index in the array) or after the function that contains the literal.
\<close>

datatype regex =
    MEMORY_TRIGGERS_EN nat
  | MEMORY_TRIGGERS_RU nat
  | MEMORY_TRIGGERS_CS nat
  | IMPORTANT_KEYWORDS      \<comment> \<open>\<open>/\b(...|important|...|critical|essential|...)\b/i\<close>\<close>
  | MEMORY_COMMAND_EN       \<comment> \<open>\<open>/\b(remember|don't\s+forget)\b/i\<close>\<close>
  | MEMORY_COMMAND_RU       \<comment> \<open>the Russian alternatives, \<open>i\<close> flag\<close>
  | CONTACT_INFO            \<comment> \<open>\<open>/\+\d{10,}|[\w.-]+@[\w.-]+\.\w{2,}/\<close>\<close>
  | PERSONAL_INFO           \<comment> \<open>\<open>/\b(my\s+name|...|jmenuji\s+se)\b/i\<close>\<close>
  | DECISION_KEYWORDS       \<comment> \<open>\<open>/\b(...|decided|...|agreed)\b/i\<close>\<close>
  | RELATIONSHIP_MENTION    \<comment> \<open>possessive followed by a relationship noun, \<open>i\<close> flag\<close>
  | PERSON_PATTERNS_EN nat
  | PERSON_PATTERNS_RU nat
  | PERSON_PATTERNS_CS nat
  | ORGANIZATION_PATTERNS_EN nat
  | ORGANIZATION_PATTERNS_RU nat
  | ORGANIZATION_PATTERNS_CS nat
  | LOCATION_PATTERNS_RU nat
  | LOCATION_PATTERNS_EN nat
  | CONCEPT_PATTERNS_EN nat
  | CONCEPT_PATTERNS_RU nat
  | CONCEPT_PATTERNS_CS nat
  | PHONE_PATTERN
  | EMAIL_PATTERN
  | ROLE_PATTERNS nat
  | ORG_STOPWORD            \<comment> \<open>\<open>/^(a|an|the|...|jedna)$/i\<close>\<close>
  | CONCEPT_LIST_SEPARATOR  \<comment> \<open>\<open>/\s+(?:...|and|,)\s+/\<close>, the argument of \<open>split\<close>\<close>
  | PERSON_PATTERNS nat     \<comment> \<open>the arrays of entity-extractor.ts\<close>
  | ORGANIZATION_PATTERNS nat
  | CONCEPT_PATTERNS nat
  | PERSON_STOPWORD         \<comment> \<open>\<open>/^(the|a|an|...|that|this)$/i\<close>\<close>

text \<open>
  A match is the array \<open>RegExp.exec\<close> returns: the matched text at index 0, then the
  capture groups, \<open>None\<close> for a group that did not take part (\<open>undefined\<close>).
\<close>

type_synonym rmatch = "jsstring option list"

definition grp :: "rmatch \<Rightarrow> nat \<Rightarrow> jsstring option" where
  \<comment> \<open>\<open>match[i]\<close>; an index past the end reads \<open>undefined\<close>\<close>
  "grp m i = (if i < length m then m ! i else None)"

definition truthy :: "jsstring option \<Rightarrow> bool" where
  \<comment> \<open>a string or \<open>undefined\<close> in a condition: \<open>undefined\<close> and the empty string are falsy\<close>
  "truthy s = (case s of None \<Rightarrow> False | Some t \<Rightarrow> t \<noteq> [])"

text \<open>What a call outside the core throws.\<close>

datatype error = Thrown jsstring

text \<open>
  The morphological analyser is the \<open>az\<close> package: \<open>Az.Morph(word)\<close> returns the
  parses of a word, most plausible first, or throws. Of a parse the wrapper reads the tag
  and the word of \<open>normalize()\<close>, which may throw or have no word.
\<close>

record AzTag =
  POS :: "jsstring option"
  Name :: bool
  Surn :: bool
  Patr :: bool
  Geox :: bool
  Orgn :: bool

record AzParse =
  tag :: AzTag
  normalizedWord :: "error + jsstring option"

record host =
  toLowerCase :: "jsstring \<Rightarrow> jsstring"
  toUpperCase :: "jsstring \<Rightarrow> jsstring"
  rxTest :: "regex \<Rightarrow> jsstring \<Rightarrow> bool"
  rxMatchAll :: "regex \<Rightarrow> jsstring \<Rightarrow> rmatch list"
  rxMatch :: "regex \<Rightarrow> jsstring \<Rightarrow> rmatch option"
  rxSplit :: "regex \<Rightarrow> jsstring \<Rightarrow> jsstring list"
  azMorph :: "jsstring \<Rightarrow> error + AzParse list"

section \<open>Capture decision engine (triggers)\<close>

datatype SupportedLanguage = EN | RU | CS

subsection \<open>Language detection\<close>

definition CYRILLIC_PATTERN :: "cu \<Rightarrow> bool" where
  \<comment> \<open>the class of the code units 0400 to 04FF\<close>
  "CYRILLIC_PATTERN c = (0x0400 \<le> c \<and> c \<le> 0x04FF)"

definition czech_letters :: "cu list" where
  \<comment> \<open>the fifteen letters of the class of \<open>CZECH_PATTERN\<close>, as written (lower case)\<close>
  "czech_letters =
     [0x011B, 0x0161, 0x010D, 0x0159, 0x017E, 0x00FD, 0x00E1, 0x00ED,
      0x00E9, 0x00FA, 0x016F, 0x010F, 0x0165, 0x0148, 0x00F3]"

definition czech_capitals :: "cu list" where
  \<comment> \<open>their capitals, which the \<open>i\<close> flag of \<open>CZECH_PATTERN\<close> adds\<close>
  "czech_capitals =
     [0x011A, 0x0160, 0x010C, 0x0158, 0x017D, 0x00DD, 0x00C1, 0x00CD,
      0x00C9, 0x00DA, 0x016E, 0x010E, 0x0164, 0x0147, 0x00D3]"

definition CZECH_PATTERN :: "cu \<Rightarrow> bool" where
  "CZECH_PATTERN c = (c \<in> set (czech_letters @ czech_capitals))"

definition detectLanguage :: "jsstring \<Rightarrow> SupportedLanguage" where
  "detectLanguage text =
     (if list_ex CYRILLIC_PATTERN text then RU
      else if list_ex CZECH_PATTERN text then CS
      else EN)"

subsection \<open>Capture acceptance\<close>

definition TRIGGERS_BY_LANGUAGE :: "SupportedLanguage \<Rightarrow> regex list" where
  \<comment> \<open>part_002: nine English, fifteen Russian and six Czech triggers\<close>
  "TRIGGERS_BY_LANGUAGE lang =
     (case lang of
        EN \<Rightarrow> map MEMORY_TRIGGERS_EN [0..<9]
      | RU \<Rightarrow> map MEMORY_TRIGGERS_RU [0..<15]
      | CS \<Rightarrow> map MEMORY_TRIGGERS_CS [0..<6])"

definition TRIGGERS_BY_LANGUAGE_1 :: "SupportedLanguage \<Rightarrow> regex list" where
  \<comment> \<open>part_001: the Russian array has its first seven triggers only\<close>
  "TRIGGERS_BY_LANGUAGE_1 lang =
     (case lang of
        EN \<Rightarrow> map MEMORY_TRIGGERS_EN [0..<9]
      | RU \<Rightarrow> map MEMORY_TRIGGERS_RU [0..<7]
      | CS \<Rightarrow> map MEMORY_TRIGGERS_CS [0..<6])"

definition isHighSurrogate :: "cu \<Rightarrow> bool" where
  "isHighSurrogate c = (0xD800 \<le> c \<and> c \<le> 0xDBFF)"

definition isLowSurrogate :: "cu \<Rightarrow> bool" where
  "isLowSurrogate c = (0xDC00 \<le> c \<and> c \<le> 0xDFFF)"

fun codePoints :: "jsstring \<Rightarrow> nat list" where
  \<comment> \<open>the code points a regular expression with the \<open>u\<close> flag sees\<close>
  "codePoints [] = []"
| "codePoints [c] = [unat c]"
| "codePoints (h # l # cs) =
     (if isHighSurrogate h \<and> isLowSurrogate l
      then (0x10000 + (unat h - 0xD800) * 0x400 + (unat l - 0xDC00)) # codePoints cs
      else unat h # codePoints (l # cs))"

definition emojiCount :: "jsstring \<Rightarrow> nat" where
  \<comment> \<open>\<open>(text.match(/[\u{1F300}-\u{1F9FF}]/gu) || []).length\<close>\<close>
  "emojiCount text = length (filter (\<lambda>cp. 0x1F300 \<le> cp \<and> cp \<le> 0x1F9FF) (codePoints text))"

definition codeIndicators :: "jsstring list" where
  "codeIndicators =
     [js ''```'', js ''const '', js ''function '', js ''=> {'', js ''import '',
      js ''export '', js ''class '', js ''var '', js ''let '']"

definition triggered :: "host \<Rightarrow> (SupportedLanguage \<Rightarrow> regex list) \<Rightarrow> jsstring
    \<Rightarrow> SupportedLanguage list \<Rightarrow> bool" where
  \<comment> \<open>the final loop over the enabled languages\<close>
  "triggered h table text languages =
     list_ex (\<lambda>lang. list_ex (\<lambda>r. rxTest h r text) (table lang)) languages"

definition shouldCapture :: "host \<Rightarrow> jsstring \<Rightarrow> SupportedLanguage list \<Rightarrow> bool" where
  \<comment> \<open>part_002\<close>
  "shouldCapture h text languages =
     (if length text < 10 \<or> length text > 2000 then False
      else if jsIncludes text (js ''<relevant-memories>'') then False
      else if startsWith text (js ''<'') \<and> jsIncludes text (js ''</'') then False
      else if jsIncludes text (js ''**'') \<and> jsIncludes text [0x0A, 0x2D] then False
      else if emojiCount text > 3 then False
      else
        let codeTokenCount = length (filter (jsIncludes text) codeIndicators);
            codeRatio = (of_nat codeTokenCount :: rat) / of_nat (length codeIndicators)
        in if codeRatio > 1 / 2 \<or> jsIncludes text (js ''```'') then False
           else triggered h TRIGGERS_BY_LANGUAGE text languages)"

definition shouldCapture_1 :: "host \<Rightarrow> jsstring \<Rightarrow> SupportedLanguage list \<Rightarrow> bool" where
  \<comment> \<open>part_001: upper bound 500, and any of three code markers rejects\<close>
  "shouldCapture_1 h text languages =
     (if length text < 10 \<or> length text > 500 then False
      else if jsIncludes text (js ''<relevant-memories>'') then False
      else if startsWith text (js ''<'') \<and> jsIncludes text (js ''</'') then False
      else if jsIncludes text (js ''**'') \<and> jsIncludes text [0x0A, 0x2D] then False
      else if emojiCount text > 3 then False
      else if jsIncludes text (js ''```'') \<or> jsIncludes text (js ''const '')
              \<or> jsIncludes text (js ''function '') then False
      else triggered h TRIGGERS_BY_LANGUAGE_1 text languages)"

subsection \<open>Importance\<close>

definition calculateImportance :: "host \<Rightarrow> jsstring \<Rightarrow> int option \<Rightarrow> rat" where
  \<comment> \<open>part_002; \<open>entityCount\<close> is optional, \<open>None\<close> is \<open>undefined\<close>\<close>
  "calculateImportance h text entityCount =
     (let score = 1 / 2;
          score = (if rxTest h IMPORTANT_KEYWORDS text then addD score (dbl (2 / 10))
                   else score);
          score = (if rxTest h MEMORY_COMMAND_EN text \<or> rxTest h MEMORY_COMMAND_RU text
                   then addD score (dbl (15 / 100)) else score);
          score = (if rxTest h CONTACT_INFO text then addD score (dbl (1 / 10)) else score);
          score = (if rxTest h PERSONAL_INFO text then addD score (dbl (1 / 10)) else score);
          score = (if rxTest h DECISION_KEYWORDS text then addD score (dbl (1 / 10))
                   else score);
          score = (if rxTest h RELATIONSHIP_MENTION text then addD score (dbl (1 / 10))
                   else score);
          score = (case entityCount of
                     None \<Rightarrow> score
                   | Some n \<Rightarrow>
                       if n \<noteq> 0 \<and> n > 0
                       then addD score
                              (min (mulD (dbl (of_int n)) (dbl (5 / 100))) (dbl (15 / 100)))
                       else score)
      in min score 1)"

text \<open>
  The specification's reading of the same function, for comparison: a base of 0.5 and the
  increments that apply, each decided by its own test of the input, as the doubles that
  are added and in the order of the source.
\<close>

definition entityDensityBonus :: "int option \<Rightarrow> rat list" where
  \<comment> \<open>0.05 for each entity, at most 0.15, when a positive count is given\<close>
  "entityDensityBonus entityCount =
     (case entityCount of
        None \<Rightarrow> []
      | Some n \<Rightarrow>
          if 0 < n then [min (mulD (dbl (of_int n)) (dbl (5 / 100))) (dbl (15 / 100))] else [])"

definition importanceIncrements :: "host \<Rightarrow> jsstring \<Rightarrow> int option \<Rightarrow> rat list" where
  "importanceIncrements h text entityCount =
     (if rxTest h IMPORTANT_KEYWORDS text then [dbl (2 / 10)] else [])
     @ (if rxTest h MEMORY_COMMAND_EN text \<or> rxTest h MEMORY_COMMAND_RU text
        then [dbl (15 / 100)] else [])
     @ (if rxTest h CONTACT_INFO text then [dbl (1 / 10)] else [])
     @ (if rxTest h PERSONAL_INFO text then [dbl (1 / 10)] else [])
     @ (if rxTest h DECISION_KEYWORDS text then [dbl (1 / 10)] else [])
     @ (if rxTest h RELATIONSHIP_MENTION text then [dbl (1 / 10)] else [])
     @ entityDensityBonus entityCount"

text \<open>
  The sum of the claim, in exact arithmetic: 0.5 plus the seven increments, the last one
  min(entityCount * 0.05, 0.15) whenever a count is given.
\<close>

definition exactIncrements :: "host \<Rightarrow> jsstring \<Rightarrow> int option \<Rightarrow> rat list" where
  "exactIncrements h text entityCount =
     [if rxTest h IMPORTANT_KEYWORDS text then 2 / 10 else 0,
      if rxTest h MEMORY_COMMAND_EN text \<or> rxTest h MEMORY_COMMAND_RU text then 15 / 100 else 0,
      if rxTest h CONTACT_INFO text then 1 / 10 else 0,
      if rxTest h PERSONAL_INFO text then 1 / 10 else 0,
      if rxTest h DECISION_KEYWORDS text then 1 / 10 else 0,
      if rxTest h RELATIONSHIP_MENTION text then 1 / 10 else 0,
      case entityCount of None \<Rightarrow> 0 | Some n \<Rightarrow> min (of_int n * (5 / 100)) (15 / 100)]"

text \<open>A host in which every regular expression matches every text, for examples.\<close>

definition host_all :: host where
  "host_all = \<lparr>toLowerCase = id, toUpperCase = id, rxTest = (\<lambda>r t. True),
     rxMatchAll = (\<lambda>r t. []), rxMatch = (\<lambda>r t. None), rxSplit = (\<lambda>r t. [t]),
     azMorph = (\<lambda>w. Inr [])\<rparr>"

text \<open>A host in which the importance markers and the contact information match.\<close>

definition host_important_contact :: host where
  "host_important_contact =
     \<lparr>toLowerCase = id, toUpperCase = id,
      rxTest = (\<lambda>r t. r = IMPORTANT_KEYWORDS \<or> r = CONTACT_INFO),
      rxMatchAll = (\<lambda>r t. []), rxMatch = (\<lambda>r t. None), rxSplit = (\<lambda>r t. [t]),
      azMorph = (\<lambda>w. Inr [])\<rparr>"

text \<open>A host in which only the contact-information pattern matches.\<close>

definition host_contact :: host where
  "host_contact = \<lparr>toLowerCase = id, toUpperCase = id, rxTest = (\<lambda>r t. r = CONTACT_INFO),
     rxMatchAll = (\<lambda>r t. []), rxMatch = (\<lambda>r t. None), rxSplit = (\<lambda>r t. [t]),
     azMorph = (\<lambda>w. Inr [])\<rparr>"

section \<open>Entities and relations\<close>

datatype EntityType = Person | Organization | Location | Concept

datatype propval = PString jsstring | PNumber rat | PBool bool

text \<open>
  A property bag is a JavaScript object with string keys and scalar values: an association
  list in insertion order, with at most one entry for a key.
\<close>

type_synonym properties = "(jsstring \<times> propval) list"

record ExtractedEntity =
  e_type :: EntityType
  e_name :: jsstring
  e_properties :: properties
  e_confidence :: rat

datatype RelationType =
  Knows | Works_at | Belongs_to | Related_to | Lives_in | Uses | Manages | Studies_at
  | Interested_in

record ExtractedRelation =
  sourceType :: EntityType
  sourceName :: jsstring
  targetType :: EntityType
  targetName :: jsstring
  relationType :: RelationType
  r_properties :: properties
  r_confidence :: rat

subsection \<open>Implicit relation inference (part_003)\<close>

definition pairKey :: "host \<Rightarrow> jsstring \<Rightarrow> jsstring \<Rightarrow> jsstring" where
  \<comment> \<open>the template \<open>${a.toLowerCase()}-${b.toLowerCase()}\<close>\<close>
  "pairKey h a b = toLowerCase h a @ js ''-'' @ toLowerCase h b"

definition explicitPairs :: "host \<Rightarrow> ExtractedRelation list \<Rightarrow> jsstring list" where
  \<comment> \<open>the keys added to the set, both orders for each explicit relation\<close>
  "explicitPairs h explicitRelations =
     concat (map (\<lambda>r. [pairKey h (sourceName r) (targetName r),
                         pairKey h (targetName r) (sourceName r)]) explicitRelations)"

definition impliedRelation :: "ExtractedEntity \<Rightarrow> EntityType \<Rightarrow> ExtractedEntity
    \<Rightarrow> ExtractedRelation" where
  "impliedRelation person ty target =
     \<lparr>sourceType = Person, sourceName = e_name person,
      targetType = ty, targetName = e_name target,
      relationType = Related_to,
      r_properties = [(js ''inferred'', PBool True)],
      r_confidence = 4 / 10\<rparr>"

definition coOccurrences :: "host \<Rightarrow> jsstring list \<Rightarrow> ExtractedEntity \<Rightarrow> EntityType
    \<Rightarrow> ExtractedEntity list \<Rightarrow> ExtractedRelation list" where
  \<comment> \<open>one inner loop: the person with every entity of one other type\<close>
  "coOccurrences h pairs person ty targets =
     map (impliedRelation person ty)
       (filter (\<lambda>t. pairKey h (e_name person) (e_name t) \<notin> set pairs) targets)"

definition inferImplicitRelations :: "host \<Rightarrow> ExtractedEntity list \<Rightarrow> ExtractedRelation list
    \<Rightarrow> ExtractedRelation list" where
  "inferImplicitRelations h entities explicitRelations =
     (let pairs = explicitPairs h explicitRelations;
          persons = filter (\<lambda>e. e_type e = Person) entities;
          orgs = filter (\<lambda>e. e_type e = Organization) entities;
          locations = filter (\<lambda>e. e_type e = Location) entities;
          concepts = filter (\<lambda>e. e_type e = Concept) entities
      in concat (map (\<lambda>person.
           coOccurrences h pairs person Organization orgs
           @ coOccurrences h pairs person Location locations
           @ coOccurrences h pairs person Concept concepts) persons))"

text \<open>A host with the ASCII case mapping, in which no regular expression matches.\<close>

definition asciiLower :: "jsstring \<Rightarrow> jsstring" where
  "asciiLower s = map (\<lambda>c. if 0x41 \<le> c \<and> c \<le> 0x5A then c + 0x20 else c) s"

definition asciiUpper :: "jsstring \<Rightarrow> jsstring" where
  "asciiUpper s = map (\<lambda>c. if 0x61 \<le> c \<and> c \<le> 0x7A then c - 0x20 else c) s"

definition host_ascii :: host where
  "host_ascii = \<lparr>toLowerCase = asciiLower, toUpperCase = asciiUpper,
     rxTest = (\<lambda>r t. False), rxMatchAll = (\<lambda>r t. []), rxMatch = (\<lambda>r t. None),
     rxSplit = (\<lambda>r t. [t]),
     azMorph = (\<lambda>w. Inr [])\<rparr>"

section \<open>Hybrid search (hybrid-search.ts)\<close>

datatype MemoryCategory = Preference | Fact | Decision | Entity | Other

record EntitySummary =
  es_id :: jsstring
  es_name :: jsstring
  es_type :: jsstring

record Memory =
  m_id :: jsstring
  m_text :: jsstring
  m_category :: MemoryCategory
  m_importance :: rat
  m_language :: SupportedLanguage
  m_createdAt :: rat
  m_entities :: "EntitySummary list option"

datatype Source = Vector | Graph | Both

record HybridSearchResult =
  memory :: Memory
  vectorScore :: rat
  graphScore :: rat
  combinedScore :: rat
  source :: Source

record HybridSearchOptions =
  limit :: "int option"
  minScore :: "rat option"
  hybridWeight :: "rat option"
  includeGraph :: "bool option"
  category :: "MemoryCategory option"
  language :: "SupportedLanguage option"

record QdrantPayload =
  p_id :: jsstring
  p_text :: jsstring
  p_category :: MemoryCategory
  p_importance :: rat
  p_createdAt :: rat
  p_language :: SupportedLanguage
  p_entityIds :: "jsstring list option"
    \<comment> \<open>declared an array; the code also guards against its absence\<close>

record QdrantPoint =
  pt_id :: jsstring
  pt_vector :: "rat list"
  payload :: QdrantPayload

record QdrantSearchResult =
  point :: QdrantPoint
  score :: rat

text \<open>
  The two collaborators are outside the core. A call either returns or throws. They are
  functions of their arguments: the stores do not change during one call of \<open>search\<close>
  or \<open>enrichWithEntities\<close>.
\<close>

record QdrantMemoryClient =
  q_search :: "rat list \<Rightarrow> int \<Rightarrow> rat \<Rightarrow> MemoryCategory option \<Rightarrow> SupportedLanguage option
     \<Rightarrow> error + QdrantSearchResult list"
  q_getById :: "jsstring \<Rightarrow> error + QdrantPoint option"

record NebulaMemoryClient =
  findRelatedMemories :: "jsstring list \<Rightarrow> error + jsstring list"

subsection \<open>Sets and maps in insertion order\<close>

definition setAdd :: "jsstring list \<Rightarrow> jsstring \<Rightarrow> jsstring list" where
  "setAdd s x = (if x \<in> set s then s else s @ [x])"

definition newSet :: "jsstring list \<Rightarrow> jsstring list" where
  \<comment> \<open>\<open>new Set(xs)\<close>: the elements in the order of their first occurrence\<close>
  "newSet xs = foldl setAdd [] xs"

fun mapSet :: "(jsstring \<times> 'v) list \<Rightarrow> jsstring \<Rightarrow> 'v \<Rightarrow> (jsstring \<times> 'v) list" where
  \<comment> \<open>\<open>Map.set\<close>: an existing key keeps its place and takes the new value\<close>
  "mapSet [] k v = [(k, v)]"
| "mapSet ((k', v') # m) k v = (if k' = k then (k, v) # m else (k', v') # mapSet m k v)"

definition mapHas :: "(jsstring \<times> 'v) list \<Rightarrow> jsstring \<Rightarrow> bool" where
  "mapHas m k = (k \<in> fst ` set m)"

definition mapValues :: "(jsstring \<times> 'v) list \<Rightarrow> 'v list" where
  "mapValues m = map snd m"

subsection \<open>search\<close>

definition memoryOf :: "jsstring \<Rightarrow> QdrantPayload \<Rightarrow> Memory" where
  "memoryOf i p =
     \<lparr>m_id = i, m_text = p_text p, m_category = p_category p, m_importance = p_importance p,
      m_language = p_language p, m_createdAt = p_createdAt p, m_entities = None\<rparr>"

definition vectorEntry :: "jsstring list \<Rightarrow> QdrantSearchResult \<Rightarrow> HybridSearchResult" where
  \<comment> \<open>the object stored for a vector candidate\<close>
  "vectorEntry graphMemoryIds vr =
     (let i = pt_id (point vr);
          isInGraph = (i \<in> set graphMemoryIds)
      in \<lparr>memory = memoryOf i (payload (point vr)),
          vectorScore = score vr,
          graphScore = (if isInGraph then 5 / 10 else 0),
          combinedScore = 0,
          source = (if isInGraph then Both else Vector)\<rparr>)"

definition addVectorResult :: "jsstring list \<Rightarrow> (jsstring \<times> HybridSearchResult) list
    \<Rightarrow> QdrantSearchResult \<Rightarrow> (jsstring \<times> HybridSearchResult) list" where
  \<comment> \<open>the body of the loop over \<open>vectorResults\<close>\<close>
  "addVectorResult graphMemoryIds resultsMap vr =
     mapSet resultsMap (pt_id (point vr)) (vectorEntry graphMemoryIds vr)"

definition graphEntry :: "jsstring \<Rightarrow> QdrantPoint \<Rightarrow> HybridSearchResult" where
  \<comment> \<open>the object stored for a graph-only identifier that was fetched\<close>
  "graphEntry graphId pt =
     \<lparr>memory = memoryOf graphId (payload pt),
      vectorScore = 0, graphScore = 7 / 10, combinedScore = 0, source = Graph\<rparr>"

definition addGraphResult :: "QdrantMemoryClient \<Rightarrow> (jsstring \<times> HybridSearchResult) list
    \<Rightarrow> jsstring \<Rightarrow> (jsstring \<times> HybridSearchResult) list" where
  \<comment> \<open>the body of the loop over \<open>graphMemoryIds\<close>; the \<open>catch\<close> skips the identifier\<close>
  "addGraphResult q resultsMap graphId =
     (if mapHas resultsMap graphId then resultsMap
      else case q_getById q graphId of
             Inl e \<Rightarrow> resultsMap
           | Inr None \<Rightarrow> resultsMap
           | Inr (Some pt) \<Rightarrow> mapSet resultsMap graphId (graphEntry graphId pt))"

definition withCombinedScore :: "rat \<Rightarrow> HybridSearchResult \<Rightarrow> HybridSearchResult" where
  "withCombinedScore w r =
     (let vectorComponent = mulD (dbl (vectorScore r)) (dbl w);
          graphComponent = mulD (dbl (graphScore r)) (subD 1 (dbl w));
          importanceBoost = mulD (dbl (m_importance (memory r))) (dbl (1 / 10))
      in r\<lparr>combinedScore := addD (addD vectorComponent graphComponent) importanceBoost\<rparr>)"

definition sortByCombinedScore :: "HybridSearchResult list \<Rightarrow> HybridSearchResult list" where
  \<comment> \<open>\<open>results.sort((a, b) => b.combinedScore - a.combinedScore)\<close>: descending and
     stable; the rounded difference of two doubles has the sign of their difference\<close>
  "sortByCombinedScore rs = sort_key (\<lambda>r. - combinedScore r) rs"

definition sliceFromStart :: "'a list \<Rightarrow> int \<Rightarrow> 'a list" where
  \<comment> \<open>\<open>xs.slice(0, n)\<close>; a negative end counts from the end of the array\<close>
  "sliceFromStart xs n =
     (if n < 0 then take (nat (int (length xs) + n)) xs else take (nat n) xs)"

definition graphLookup :: "NebulaMemoryClient \<Rightarrow> bool \<Rightarrow> jsstring list
    \<Rightarrow> error + jsstring list" where
  \<comment> \<open>step 2: the membership set, empty when the graph is not asked\<close>
  "graphLookup n includeGraph' entityNames =
     (if includeGraph' \<and> length entityNames > 0
      then (case findRelatedMemories n entityNames of
              Inl e \<Rightarrow> Inl e
            | Inr graphIds \<Rightarrow> Inr (newSet graphIds))
      else Inr [])"

definition fuse :: "QdrantMemoryClient \<Rightarrow> QdrantSearchResult list \<Rightarrow> jsstring list
    \<Rightarrow> (jsstring \<times> HybridSearchResult) list" where
  \<comment> \<open>step 3: the result map after both loops\<close>
  "fuse q vectorResults graphMemoryIds =
     foldl (addGraphResult q) (foldl (addVectorResult graphMemoryIds) [] vectorResults)
       graphMemoryIds"

definition ranked :: "QdrantMemoryClient \<Rightarrow> QdrantSearchResult list \<Rightarrow> jsstring list
    \<Rightarrow> rat \<Rightarrow> HybridSearchResult list" where
  \<comment> \<open>step 4 before the truncation: the values of the map, scored and sorted\<close>
  "ranked q vrs G w = sortByCombinedScore (map (withCombinedScore w) (mapValues (fuse q vrs G)))"

definition limitOf :: "HybridSearchOptions \<Rightarrow> int" where
  "limitOf options = (case limit options of None \<Rightarrow> 5 | Some l \<Rightarrow> l)"

definition minScoreOf :: "HybridSearchOptions \<Rightarrow> rat" where
  "minScoreOf options = (case minScore options of None \<Rightarrow> 3 / 10 | Some s \<Rightarrow> s)"

definition hybridWeightOf :: "HybridSearchOptions \<Rightarrow> rat" where
  "hybridWeightOf options = (case hybridWeight options of None \<Rightarrow> 7 / 10 | Some w \<Rightarrow> w)"

definition includeGraphOf :: "HybridSearchOptions \<Rightarrow> bool" where
  "includeGraphOf options = (case includeGraph options of None \<Rightarrow> True | Some b \<Rightarrow> b)"

definition search :: "QdrantMemoryClient \<Rightarrow> NebulaMemoryClient \<Rightarrow> rat list \<Rightarrow> jsstring
    \<Rightarrow> jsstring list \<Rightarrow> HybridSearchOptions \<Rightarrow> error + HybridSearchResult list" where
  \<comment> \<open>the options are destructured with their defaults; the limit is a whole number\<close>
  "search q n vector query entityNames options =
     (case q_search q vector (limitOf options * 2) (minScoreOf options)
             (category options) (language options) of
        Inl e \<Rightarrow> Inl e
      | Inr vectorResults \<Rightarrow>
          (case graphLookup n (includeGraphOf options) entityNames of
             Inl e \<Rightarrow> Inl e
           | Inr graphMemoryIds \<Rightarrow>
               let results = ranked q vectorResults graphMemoryIds (hybridWeightOf options)
               in Inr (sliceFromStart results (limitOf options))))"

subsection \<open>enrichWithEntities\<close>

fun splitOn :: "cu \<Rightarrow> jsstring \<Rightarrow> jsstring list" where
  \<comment> \<open>\<open>s.split(sep)\<close> for a separator of one code unit\<close>
  "splitOn sep [] = [[]]"
| "splitOn sep (c # cs) =
     (if c = sep then [] # splitOn sep cs
      else (case splitOn sep cs of
              [] \<Rightarrow> [[c]]
            | p # ps \<Rightarrow> (c # p) # ps))"

fun joinWith :: "jsstring \<Rightarrow> jsstring list \<Rightarrow> jsstring" where
  "joinWith sep [] = []"
| "joinWith sep [p] = p"
| "joinWith sep (p # ps) = p @ sep @ joinWith sep ps"

definition isWordChar :: "cu \<Rightarrow> bool" where
  \<comment> \<open>the class \<open>\w\<close>: ASCII letters, digits and the underscore\<close>
  "isWordChar c =
     ((0x41 \<le> c \<and> c \<le> 0x5A) \<or> (0x61 \<le> c \<and> c \<le> 0x7A) \<or> (0x30 \<le> c \<and> c \<le> 0x39)
      \<or> c = 0x5F)"

fun capitalizeWords :: "host \<Rightarrow> bool \<Rightarrow> jsstring \<Rightarrow> jsstring" where
  \<comment> \<open>\<open>name.replace(/\b\w/g, (c) => c.toUpperCase())\<close>; the flag says whether the code
     unit before is a word character\<close>
  "capitalizeWords h prev [] = []"
| "capitalizeWords h prev (c # cs) =
     (if isWordChar c \<and> \<not> prev then toUpperCase h [c] else [c])
     @ capitalizeWords h (isWordChar c) cs"

definition entityOfId :: "host \<Rightarrow> jsstring \<Rightarrow> EntitySummary option" where
  \<comment> \<open>the body of the loop over \<open>entityIds\<close>: \<open>None\<close> when nothing is pushed\<close>
  "entityOfId h entityId =
     (let parts = splitOn 0x5F entityId
      in if length parts \<ge> 2
         then let ty = hd parts;
                  nm = map (\<lambda>c. if c = 0x5F then 0x20 else c) (joinWith (js '' '') (tl parts));
                  formattedName = capitalizeWords h False nm
              in Some \<lparr>es_id = entityId, es_name = formattedName, es_type = ty\<rparr>
         else None)"

definition enrichAttempt :: "host \<Rightarrow> QdrantMemoryClient \<Rightarrow> HybridSearchResult
    \<Rightarrow> error + HybridSearchResult" where
  \<comment> \<open>the \<open>try\<close> block for one result: what is pushed, or what is thrown\<close>
  "enrichAttempt h q r =
     (case q_getById q (m_id (memory r)) of
        Inl e \<Rightarrow> Inl e
      | Inr None \<Rightarrow> Inr r
      | Inr (Some pt) \<Rightarrow>
          (case p_entityIds (payload pt) of
             None \<Rightarrow> Inr r
           | Some entityIds \<Rightarrow>
               if length entityIds > 0
               then Inr (r\<lparr>memory := (memory r)
                         \<lparr>m_entities := Some (List.map_filter (entityOfId h) entityIds)\<rparr>\<rparr>)
               else Inr r))"

definition enrichOne :: "host \<Rightarrow> QdrantMemoryClient \<Rightarrow> HybridSearchResult
    \<Rightarrow> HybridSearchResult" where
  \<comment> \<open>\<open>try\<close> and \<open>catch\<close>: the original result is kept when the attempt throws\<close>
  "enrichOne h q r = (case enrichAttempt h q r of Inl e \<Rightarrow> r | Inr r' \<Rightarrow> r')"

definition enrichWithEntities :: "host \<Rightarrow> QdrantMemoryClient \<Rightarrow> HybridSearchResult list
    \<Rightarrow> error + HybridSearchResult list" where
  "enrichWithEntities h q results = Inr (map (enrichOne h q) results)"


section \<open>Morphology provider (morph.ts)\<close>

text \<open>
  The module state: whether the package is loaded (\<open>Az\<close> is not null), whether the
  dictionaries are (\<open>initialized\<close>), and whether an initialisation was started
  (\<open>initPromise\<close> is not null).
\<close>

record morphState =
  azLoaded :: bool
  initialized :: bool
  initStarted :: bool

definition morphInitial :: morphState where
  "morphInitial = \<lparr>azLoaded = False, initialized = False, initStarted = False\<rparr>"

datatype initOutcome = RequireFails | InitFails | InitSucceeds

definition ensureMorphInit :: "initOutcome \<Rightarrow> morphState \<Rightarrow> morphState" where
  \<comment> \<open>one call, run to the end of the initialisation it starts or joins\<close>
  "ensureMorphInit outcome st =
     (if initialized st then st
      else if initStarted st then st
      else case outcome of
             RequireFails \<Rightarrow> st\<lparr>initStarted := True\<rparr>
           | InitFails \<Rightarrow> st\<lparr>initStarted := True, azLoaded := True\<rparr>
           | InitSucceeds \<Rightarrow> st\<lparr>initStarted := True, azLoaded := True, initialized := True\<rparr>)"

definition morphAfter :: "initOutcome list \<Rightarrow> morphState" where
  \<comment> \<open>the state after a sequence of calls of \<open>ensureMorphInit\<close>\<close>
  "morphAfter outcomes = foldl (\<lambda>st outcome. ensureMorphInit outcome st) morphInitial outcomes"

definition isMorphReady :: "morphState \<Rightarrow> bool" where
  "isMorphReady st = initialized st"

definition parse :: "host \<Rightarrow> morphState \<Rightarrow> jsstring \<Rightarrow> AzParse list" where
  "parse h st w =
     (if \<not> azLoaded st \<or> \<not> initialized st then []
      else case azMorph h w of Inl e \<Rightarrow> [] | Inr parses \<Rightarrow> parses)"

definition normalize :: "host \<Rightarrow> morphState \<Rightarrow> jsstring \<Rightarrow> jsstring" where
  "normalize h st w =
     (case parse h st w of
        [] \<Rightarrow> w
      | p # ps \<Rightarrow>
          (case normalizedWord p of
             Inl e \<Rightarrow> w
           | Inr None \<Rightarrow> w
           | Inr (Some nw) \<Rightarrow> if nw = [] then w else nw))"

definition falsePosTags :: "jsstring list" where
  "falsePosTags =
     [js ''VERB'', js ''INFN'', js ''GRND'', js ''PRTF'', js ''PRTS'', js ''ADJF'', js ''ADJS'',
      js ''ADVB'', js ''PREP'', js ''CONJ'', js ''PRCL'', js ''INTJ'', js ''PRED'', js ''NPRO'']"

definition isFalsePositiveName :: "host \<Rightarrow> morphState \<Rightarrow> jsstring \<Rightarrow> bool" where
  "isFalsePositiveName h st w =
     (case parse h st w of
        [] \<Rightarrow> False
      | p # ps \<Rightarrow>
          if Name (tag p) \<or> Surn (tag p) \<or> Patr (tag p) \<or> Geox (tag p) then False
          else (case POS (tag p) of
                  None \<Rightarrow> False
                | Some pos \<Rightarrow> pos \<noteq> [] \<and> pos \<in> set falsePosTags))"

section \<open>Entity extraction (part_003)\<close>

subsection \<open>String helpers\<close>

definition isJsSpace :: "cu \<Rightarrow> bool" where
  \<comment> \<open>the white space and line terminators of \<open>trim\<close> and of the class \<open>\s\<close>\<close>
  "isJsSpace c =
     (c \<in> set [0x09, 0x0A, 0x0B, 0x0C, 0x0D, 0x20, 0xA0, 0x1680, 0x2028, 0x2029, 0x202F,
                0x205F, 0x3000, 0xFEFF]
      \<or> (0x2000 \<le> c \<and> c \<le> 0x200A))"

definition trim :: "jsstring \<Rightarrow> jsstring" where
  "trim s = rev (dropWhile isJsSpace (rev (dropWhile isJsSpace s)))"

function splitRuns :: "(cu \<Rightarrow> bool) \<Rightarrow> jsstring \<Rightarrow> jsstring list" where
  \<comment> \<open>\<open>s.split(/[...]+/)\<close> for a class of separators: the pieces between the runs\<close>
  "splitRuns sep [] = [[]]"
| "splitRuns sep (c # cs) =
     (if sep c then [] # splitRuns sep (dropWhile sep cs)
      else (case splitRuns sep cs of
              [] \<Rightarrow> [[c]]
            | p # ps \<Rightarrow> (c # p) # ps))"
  by pat_completeness auto
termination
  by (relation "measure (\<lambda>(sep, s). length s)")
     (auto simp: length_dropWhile_le le_imp_less_Suc)

definition startsUpper :: "jsstring \<Rightarrow> bool" where
  \<comment> \<open>\<open>/^[A-Z...]/\<close>: a Latin or Russian capital first\<close>
  "startsUpper w =
     (case w of
        [] \<Rightarrow> False
      | c # cs \<Rightarrow> (0x41 \<le> c \<and> c \<le> 0x5A) \<or> (0x0410 \<le> c \<and> c \<le> 0x042F) \<or> c = 0x0401)"

definition hasRussianLetter :: "jsstring \<Rightarrow> bool" where
  \<comment> \<open>the class of the Russian letters of both cases, anywhere in the word\<close>
  "hasRussianLetter w =
     list_ex (\<lambda>c. (0x0410 \<le> c \<and> c \<le> 0x042F) \<or> c = 0x0401
                 \<or> (0x0430 \<le> c \<and> c \<le> 0x044F) \<or> c = 0x0451) w"

definition capitalize :: "host \<Rightarrow> jsstring \<Rightarrow> jsstring" where
  "capitalize h s = (case s of [] \<Rightarrow> [] | c # cs \<Rightarrow> toUpperCase h [c] @ cs)"

definition stripSeparators :: "jsstring \<Rightarrow> jsstring" where
  \<comment> \<open>\<open>.replace(/[-.\s]/g, "")\<close>\<close>
  "stripSeparators s = filter (\<lambda>c. \<not> (c = 0x2D \<or> c = 0x2E \<or> isJsSpace c)) s"

definition stripQuotes :: "jsstring \<Rightarrow> jsstring" where
  \<comment> \<open>the guillemets and the double quote removed\<close>
  "stripQuotes s = filter (\<lambda>c. \<not> (c = 0xAB \<or> c = 0xBB \<or> c = 0x22)) s"

definition commonFalsePositives :: "jsstring list" where
  "commonFalsePositives =
     [[0x044D, 0x0442, 0x043E],
      [0x0442, 0x043E],
      js ''the'',
      js ''a'',
      js ''an'',
      js ''that'',
      js ''this'',
      [0x043F, 0x043E, 0x0441, 0x043B, 0x0435],
      [0x043C, 0x043E, 0x0436, 0x0435, 0x0442],
      [0x043E, 0x0434, 0x043D, 0x0430, 0x043A, 0x043E],
      [0x043F, 0x043E, 0x044D, 0x0442, 0x043E, 0x043C, 0x0443],
      [0x0442, 0x0430, 0x043A, 0x0436, 0x0435],
      [0x043F, 0x043E, 0x0442, 0x043E, 0x043C, 0x0443],
      [0x043A, 0x0440, 0x043E, 0x043C, 0x0435],
      [0x043E, 0x043A, 0x043E, 0x043B, 0x043E],
      [0x043C, 0x0435, 0x0436, 0x0434, 0x0443],
      [0x0447, 0x0435, 0x0440, 0x0435, 0x0437],
      [0x043F, 0x0435, 0x0440, 0x0435, 0x0434],
      [0x0432, 0x043E, 0x0437, 0x043B, 0x0435],
      [0x0432, 0x043C, 0x0435, 0x0441, 0x0442, 0x043E],
      [0x043A, 0x0441, 0x0442, 0x0430, 0x0442, 0x0438],
      [0x043D, 0x0430, 0x043F, 0x0440, 0x0438, 0x043C, 0x0435, 0x0440],
      [0x043A, 0x043E, 0x043D, 0x0435, 0x0447, 0x043D, 0x043E],
      [0x043D, 0x0430, 0x0432, 0x0435, 0x0440, 0x043D, 0x043E, 0x0435],
      [0x0432, 0x043E, 0x0437, 0x043C, 0x043E, 0x0436, 0x043D, 0x043E],
      [0x043F, 0x043E, 0x0436, 0x0430, 0x043B, 0x0443, 0x0439],
      [0x0432, 0x0438, 0x0434, 0x0438, 0x043C, 0x043E],
      [0x043E, 0x0447, 0x0435, 0x0432, 0x0438, 0x0434, 0x043D, 0x043E],
      [0x043F, 0x0440, 0x0430, 0x0432, 0x0434, 0x0430],
      [0x0441, 0x0435, 0x0433, 0x043E, 0x0434, 0x043D, 0x044F],
      [0x0437, 0x0430, 0x0432, 0x0442, 0x0440, 0x0430],
      [0x0432, 0x0447, 0x0435, 0x0440, 0x0430]]"

subsection \<open>Validation of names\<close>

fun normalizePersonWords :: "host \<Rightarrow> morphState \<Rightarrow> jsstring list \<Rightarrow> jsstring list option" where
  \<comment> \<open>the loop over the words of a person's name; \<open>None\<close> is the early \<open>return null\<close>\<close>
  "normalizePersonWords h st [] = Some []"
| "normalizePersonWords h st (w # ws) =
     (if \<not> startsUpper w then None
      else if isMorphReady st \<and> hasRussianLetter w
      then (if isFalsePositiveName h st w then None
            else map_option ((#) (capitalize h (normalize h st w)))
                   (normalizePersonWords h st ws))
      else map_option ((#) w) (normalizePersonWords h st ws))"

definition validateAndNormalizePerson :: "host \<Rightarrow> morphState \<Rightarrow> jsstring \<Rightarrow> jsstring option"
  where
  "validateAndNormalizePerson h st nm =
     (let trimmed = trim nm
      in if length trimmed < 2 then None
         else if toLowerCase h trimmed \<in> set commonFalsePositives then None
         else map_option (joinWith (js '' ''))
                (normalizePersonWords h st (splitRuns isJsSpace trimmed)))"

definition normalizeOrgName :: "jsstring \<Rightarrow> jsstring" where
  "normalizeOrgName nm = trim (stripQuotes (trim nm))"

definition normalizeLocationWord :: "host \<Rightarrow> morphState \<Rightarrow> jsstring \<Rightarrow> jsstring" where
  \<comment> \<open>the body of the loop over the words of a location\<close>
  "normalizeLocationWord h st w =
     (if isMorphReady st \<and> hasRussianLetter w then capitalize h (normalize h st w) else w)"

definition validateAndNormalizeLocation :: "host \<Rightarrow> morphState \<Rightarrow> jsstring \<Rightarrow> jsstring option"
  where
  "validateAndNormalizeLocation h st nm =
     (let trimmed = trim nm
      in if length trimmed < 2 then None
         else let ws = splitRuns (\<lambda>c. isJsSpace c \<or> c = 0x2D) trimmed;
                  normalizedParts = map (normalizeLocationWord h st) ws;
                  separator = (if jsIncludes trimmed (js ''-'') then js ''-'' else js '' '')
              in Some (joinWith separator normalizedParts))"

subsection \<open>Candidates\<close>

definition allPersonPatterns :: "regex list" where
  "allPersonPatterns =
     map PERSON_PATTERNS_EN [0..<2] @ map PERSON_PATTERNS_RU [0..<8]
     @ map PERSON_PATTERNS_CS [0..<2]"

definition allOrganizationPatterns :: "regex list" where
  "allOrganizationPatterns =
     map ORGANIZATION_PATTERNS_EN [0..<2] @ map ORGANIZATION_PATTERNS_RU [0..<5]
     @ map ORGANIZATION_PATTERNS_CS [0..<2]"

definition allLocationPatterns :: "regex list" where
  "allLocationPatterns = map LOCATION_PATTERNS_RU [0..<4] @ map LOCATION_PATTERNS_EN [0..<2]"

definition allConceptPatterns :: "regex list" where
  "allConceptPatterns =
     map CONCEPT_PATTERNS_EN [0..<2] @ map CONCEPT_PATTERNS_RU [0..<4]
     @ map CONCEPT_PATTERNS_CS [0..<2]"

definition allMatches :: "host \<Rightarrow> jsstring \<Rightarrow> regex \<Rightarrow> rmatch list" where
  \<comment> \<open>a fresh global copy of the pattern is made for every call: no state is kept\<close>
  "allMatches h text pattern = rxMatchAll h pattern text"

definition matchesOf :: "host \<Rightarrow> jsstring \<Rightarrow> regex list \<Rightarrow> rmatch list" where
  \<comment> \<open>the matches that the two nested loops visit, in their order\<close>
  "matchesOf h text patterns = concat (map (allMatches h text) patterns)"

definition truthyGroups :: "rmatch \<Rightarrow> jsstring list" where
  \<comment> \<open>\<open>[match[1], match[2], match[3]].filter(Boolean)\<close>\<close>
  "truthyGroups m =
     List.map_filter (\<lambda>g. if truthy g then g else None) [grp m 1, grp m 2, grp m 3]"

definition nonEmpty :: "jsstring option \<Rightarrow> jsstring list" where
  \<comment> \<open>a name that passes \<open>if (!name) continue\<close>\<close>
  "nonEmpty n = (case n of None \<Rightarrow> [] | Some s \<Rightarrow> if s = [] then [] else [s])"

definition personNames :: "host \<Rightarrow> morphState \<Rightarrow> jsstring \<Rightarrow> jsstring list" where
  \<comment> \<open>the names that reach the map of \<open>extractPersons\<close>, in the order of the loops\<close>
  "personNames h st text =
     concat (map (\<lambda>m. concat (map (\<lambda>rawName. nonEmpty (validateAndNormalizePerson h st rawName))
                                (truthyGroups m)))
               (matchesOf h text allPersonPatterns))"

definition organizationNames :: "host \<Rightarrow> jsstring \<Rightarrow> jsstring list" where
  "organizationNames h text =
     concat (map (\<lambda>m. if \<not> truthy (grp m 1) then []
                       else let nm = normalizeOrgName (the (grp m 1))
                            in if length nm < 2 then []
                               else if rxTest h ORG_STOPWORD nm then []
                               else [nm])
               (matchesOf h text allOrganizationPatterns))"

definition locationNames :: "host \<Rightarrow> morphState \<Rightarrow> jsstring \<Rightarrow> jsstring list" where
  "locationNames h st text =
     concat (map (\<lambda>m. if \<not> truthy (grp m 1) then []
                       else let rawName = trim (the (grp m 1))
                            in if length rawName < 2 then []
                               else nonEmpty (validateAndNormalizeLocation h st rawName))
               (matchesOf h text allLocationPatterns))"

definition conceptNames :: "host \<Rightarrow> jsstring \<Rightarrow> jsstring list" where
  "conceptNames h text =
     concat (map (\<lambda>m. if \<not> truthy (grp m 1) then []
                       else let nm = trim (the (grp m 1))
                            in if length nm < 2 then []
                               else let parts = filter (\<lambda>p. length p \<ge> 2)
                                          (map trim (rxSplit h CONCEPT_LIST_SEPARATOR nm))
                                    in if length parts > 0 then parts else [nm])
               (matchesOf h text allConceptPatterns))"

definition personCandidate :: "jsstring \<Rightarrow> ExtractedEntity" where
  "personCandidate nm =
     \<lparr>e_type = Person, e_name = nm, e_properties = [], e_confidence = 8 / 10\<rparr>"

definition organizationCandidate :: "jsstring \<Rightarrow> ExtractedEntity" where
  "organizationCandidate nm =
     \<lparr>e_type = Organization, e_name = nm, e_properties = [], e_confidence = 7 / 10\<rparr>"

definition locationCandidate :: "jsstring \<Rightarrow> ExtractedEntity" where
  "locationCandidate nm =
     \<lparr>e_type = Location, e_name = nm, e_properties = [], e_confidence = 7 / 10\<rparr>"

definition conceptCandidate :: "jsstring \<Rightarrow> ExtractedEntity" where
  "conceptCandidate nm =
     \<lparr>e_type = Concept, e_name = nm,
      e_properties = [(js ''category'', PString (js ''technology''))],
      e_confidence = 6 / 10\<rparr>"

definition addCandidate :: "host \<Rightarrow> (jsstring \<Rightarrow> ExtractedEntity)
    \<Rightarrow> (jsstring \<times> ExtractedEntity) list \<Rightarrow> jsstring \<Rightarrow> (jsstring \<times> ExtractedEntity) list" where
  \<comment> \<open>\<open>if (!candidates.has(key)) candidates.set(key, {...})\<close> with the lower-cased name as key\<close>
  "addCandidate h mk candidates nm =
     (let key = toLowerCase h nm
      in if mapHas candidates key then candidates else mapSet candidates key (mk nm))"

subsection \<open>The extractors\<close>

definition firstTruthy :: "rmatch list \<Rightarrow> jsstring option" where
  \<comment> \<open>group 1 of the first match that has one: the loop with \<open>break\<close>\<close>
  "firstTruthy ms = (case filter (\<lambda>m. truthy (grp m 1)) ms of [] \<Rightarrow> None | m # _ \<Rightarrow> grp m 1)"

definition firstRole :: "host \<Rightarrow> jsstring \<Rightarrow> jsstring option" where
  \<comment> \<open>the loop over the three role patterns, each tried with \<open>text.match\<close>\<close>
  "firstRole h text =
     firstTruthy (List.map_filter (\<lambda>i. rxMatch h (ROLE_PATTERNS i) text) [0..<3])"

definition setProperty :: "properties \<Rightarrow> jsstring \<Rightarrow> propval \<Rightarrow> properties" where
  \<comment> \<open>an assignment \<open>properties.key = value\<close>\<close>
  "setProperty props k v = mapSet props k v"

definition attachContactInfo :: "host \<Rightarrow> jsstring \<Rightarrow> ExtractedEntity \<Rightarrow> ExtractedEntity" where
  \<comment> \<open>phone, e-mail and role, written into the first person\<close>
  "attachContactInfo h text firstPerson =
     (let props = e_properties firstPerson;
          props = (case firstTruthy (allMatches h text PHONE_PATTERN) of
                     None \<Rightarrow> props
                   | Some ph \<Rightarrow> setProperty props (js ''phone'') (PString (stripSeparators ph)));
          props = (case firstTruthy (allMatches h text EMAIL_PATTERN) of
                     None \<Rightarrow> props
                   | Some em \<Rightarrow> setProperty props (js ''email'') (PString (toLowerCase h em)));
          props = (case firstRole h text of
                     None \<Rightarrow> props
                   | Some rl \<Rightarrow> setProperty props (js ''role'') (PString (trim rl)))
      in firstPerson\<lparr>e_properties := props\<rparr>)"

definition extractPersons :: "host \<Rightarrow> morphState \<Rightarrow> jsstring \<Rightarrow> ExtractedEntity list" where
  "extractPersons h st text =
     (let candidates = foldl (addCandidate h personCandidate) [] (personNames h st text)
      in case mapValues candidates of
           [] \<Rightarrow> []
         | firstPerson # others \<Rightarrow> attachContactInfo h text firstPerson # others)"

definition extractOrganizations :: "host \<Rightarrow> jsstring \<Rightarrow> ExtractedEntity list" where
  "extractOrganizations h text =
     mapValues (foldl (addCandidate h organizationCandidate) [] (organizationNames h text))"

definition extractLocations :: "host \<Rightarrow> morphState \<Rightarrow> jsstring \<Rightarrow> ExtractedEntity list" where
  "extractLocations h st text =
     mapValues (foldl (addCandidate h locationCandidate) [] (locationNames h st text))"

definition extractConcepts :: "host \<Rightarrow> jsstring \<Rightarrow> ExtractedEntity list" where
  "extractConcepts h text =
     mapValues (foldl (addCandidate h conceptCandidate) [] (conceptNames h text))"

definition firstGroup :: "rmatch list \<Rightarrow> jsstring option" where
  \<comment> \<open>\<open>matches[0]?.[1]\<close>, when it is truthy\<close>
  "firstGroup ms =
     (case ms of [] \<Rightarrow> None | m # _ \<Rightarrow> if truthy (grp m 1) then grp m 1 else None)"

definition extractContactInfo :: "host \<Rightarrow> jsstring \<Rightarrow> ExtractedEntity list \<Rightarrow> ExtractedEntity list"
  where
  "extractContactInfo h text existingEntities =
     (let hasPerson = list_ex (\<lambda>e. e_type e = Person) existingEntities
      in if hasPerson then []
         else let phoneMatches = allMatches h text PHONE_PATTERN;
                  emailMatches = allMatches h text EMAIL_PATTERN
              in if length phoneMatches > 0 \<or> length emailMatches > 0
                 then let props = [];
                          props = (case firstGroup phoneMatches of
                                     None \<Rightarrow> props
                                   | Some ph \<Rightarrow>
                                       setProperty props (js ''phone'')
                                         (PString (stripSeparators ph)));
                          props = (case firstGroup emailMatches of
                                     None \<Rightarrow> props
                                   | Some em \<Rightarrow>
                                       setProperty props (js ''email'')
                                         (PString (toLowerCase h em)));
                          local = (case firstGroup emailMatches of
                                     None \<Rightarrow> []
                                   | Some em \<Rightarrow> hd (splitOn 0x40 em))
                      in [\<lparr>e_type = Person,
                           e_name = (if local = [] then js ''Contact'' else local),
                           e_properties = props, e_confidence = 5 / 10\<rparr>]
                 else [])"

subsection \<open>extractEntities\<close>

definition typeName :: "EntityType \<Rightarrow> jsstring" where
  "typeName t =
     (case t of Person \<Rightarrow> js ''person'' | Organization \<Rightarrow> js ''organization''
      | Location \<Rightarrow> js ''location'' | Concept \<Rightarrow> js ''concept'')"

definition entityKey :: "host \<Rightarrow> ExtractedEntity \<Rightarrow> jsstring" where
  \<comment> \<open>the template \<open>${e.type}:${e.name.toLowerCase()}\<close>\<close>
  "entityKey h e = typeName (e_type e) @ js '':'' @ toLowerCase h (e_name e)"

fun dedupLoop :: "host \<Rightarrow> jsstring list \<Rightarrow> ExtractedEntity list \<Rightarrow> ExtractedEntity list
    \<Rightarrow> ExtractedEntity list" where
  \<comment> \<open>the final loop, with the set \<open>seen\<close> and the array \<open>unique\<close>\<close>
  "dedupLoop h seen unique [] = unique"
| "dedupLoop h seen unique (e # es) =
     (let key = entityKey h e
      in if key \<in> set seen then dedupLoop h seen unique es
         else dedupLoop h (seen @ [key]) (unique @ [e]) es)"

definition collected :: "host \<Rightarrow> morphState \<Rightarrow> jsstring \<Rightarrow> ExtractedEntity list" where
  \<comment> \<open>the array \<open>entities\<close> after the five pushes\<close>
  "collected h st text =
     (let entities = extractPersons h st text;
          entities = entities @ extractOrganizations h text;
          entities = entities @ extractLocations h st text;
          entities = entities @ extractConcepts h text;
          entities = entities @ extractContactInfo h text entities
      in entities)"

definition extractEntities :: "host \<Rightarrow> morphState \<Rightarrow> jsstring \<Rightarrow> ExtractedEntity list" where
  "extractEntities h st text = dedupLoop h [] [] (collected h st text)"

section \<open>Entity extraction, the earlier revision (entity-extractor.ts)\<close>

text \<open>
  The earlier revision runs each pattern once with \<open>text.match\<close> (none of its patterns
  is global), knows persons, organizations and concepts only, uses no morphology, and
  writes the contact information of the text into every person. Its final loop is the
  loop of part_003, word for word.
\<close>

definition contactProperties_1 :: "host \<Rightarrow> jsstring \<Rightarrow> properties" where
  \<comment> \<open>phone, e-mail and role, as \<open>extractPersons\<close> writes them into each new person\<close>
  "contactProperties_1 h text =
     (let props = [];
          props = (case rxMatch h PHONE_PATTERN text of
                     None \<Rightarrow> props
                   | Some phoneMatch \<Rightarrow>
                       if truthy (grp phoneMatch 1)
                       then setProperty props (js ''phone'')
                              (PString (stripSeparators (the (grp phoneMatch 1))))
                       else props);
          props = (case rxMatch h EMAIL_PATTERN text of
                     None \<Rightarrow> props
                   | Some emailMatch \<Rightarrow>
                       if truthy (grp emailMatch 1)
                       then setProperty props (js ''email'')
                              (PString (toLowerCase h (the (grp emailMatch 1))))
                       else props);
          props = (case firstRole h text of
                     None \<Rightarrow> props
                   | Some rl \<Rightarrow> setProperty props (js ''role'') (PString (trim rl)))
      in props)"

definition personNames_1 :: "host \<Rightarrow> jsstring \<Rightarrow> jsstring list" where
  \<comment> \<open>the names that are pushed, one at most for each of the six patterns\<close>
  "personNames_1 h text =
     concat (map (\<lambda>i. case rxMatch h (PERSON_PATTERNS i) text of
                        None \<Rightarrow> []
                      | Some m \<Rightarrow>
                          if \<not> truthy (grp m 1) then []
                          else let nm = trim (the (grp m 1))
                               in if length nm < 2 \<or> rxTest h PERSON_STOPWORD nm then []
                                  else [nm])
               [0..<6])"

definition extractPersons_1 :: "host \<Rightarrow> jsstring \<Rightarrow> ExtractedEntity list" where
  "extractPersons_1 h text =
     map (\<lambda>nm. \<lparr>e_type = Person, e_name = nm, e_properties = contactProperties_1 h text,
                  e_confidence = 8 / 10\<rparr>)
       (personNames_1 h text)"

definition organizationNames_1 :: "host \<Rightarrow> jsstring \<Rightarrow> jsstring list" where
  "organizationNames_1 h text =
     concat (map (\<lambda>i. case rxMatch h (ORGANIZATION_PATTERNS i) text of
                        None \<Rightarrow> []
                      | Some m \<Rightarrow>
                          if \<not> truthy (grp m 1) then []
                          else let nm = stripQuotes (trim (the (grp m 1)))
                               in if length nm < 2 \<or> rxTest h ORG_STOPWORD nm then []
                                  else [nm])
               [0..<4])"

definition extractOrganizations_1 :: "host \<Rightarrow> jsstring \<Rightarrow> ExtractedEntity list" where
  "extractOrganizations_1 h text = map organizationCandidate (organizationNames_1 h text)"

definition conceptNames_1 :: "host \<Rightarrow> jsstring \<Rightarrow> jsstring list" where
  "conceptNames_1 h text =
     concat (map (\<lambda>i. case rxMatch h (CONCEPT_PATTERNS i) text of
                        None \<Rightarrow> []
                      | Some m \<Rightarrow>
                          if \<not> truthy (grp m 1) then []
                          else let nm = trim (the (grp m 1))
                               in if length nm < 2 then [] else [nm])
               [0..<4])"

definition extractConcepts_1 :: "host \<Rightarrow> jsstring \<Rightarrow> ExtractedEntity list" where
  "extractConcepts_1 h text = map conceptCandidate (conceptNames_1 h text)"

definition extractContactInfo_1 :: "host \<Rightarrow> jsstring \<Rightarrow> ExtractedEntity list
    \<Rightarrow> error + ExtractedEntity list" where
  \<comment> \<open>\<open>emailMatch[1].split("@")\<close> throws when the match has no first group\<close>
  "extractContactInfo_1 h text existingEntities =
     (let hasPerson = list_ex (\<lambda>e. e_type e = Person) existingEntities
      in if hasPerson then Inr []
         else let phoneMatch = rxMatch h PHONE_PATTERN text;
                  emailMatch = rxMatch h EMAIL_PATTERN text
              in if phoneMatch \<noteq> None \<or> emailMatch \<noteq> None
                 then let props = [];
                          props = (case phoneMatch of
                                     None \<Rightarrow> props
                                   | Some m \<Rightarrow>
                                       if truthy (grp m 1)
                                       then setProperty props (js ''phone'')
                                              (PString (stripSeparators (the (grp m 1))))
                                       else props);
                          props = (case emailMatch of
                                     None \<Rightarrow> props
                                   | Some m \<Rightarrow>
                                       if truthy (grp m 1)
                                       then setProperty props (js ''email'')
                                              (PString (toLowerCase h (the (grp m 1))))
                                       else props)
                      in (case emailMatch of
                            None \<Rightarrow>
                              Inr [\<lparr>e_type = Person, e_name = js ''Contact'',
                                    e_properties = props, e_confidence = 5 / 10\<rparr>]
                          | Some m \<Rightarrow>
                              (case grp m 1 of
                                 None \<Rightarrow> Inl (Thrown (js ''TypeError''))
                               | Some em \<Rightarrow>
                                   Inr [\<lparr>e_type = Person, e_name = hd (splitOn 0x40 em),
                                         e_properties = props, e_confidence = 5 / 10\<rparr>]))
                 else Inr [])"

definition collected_1 :: "host \<Rightarrow> jsstring \<Rightarrow> error + ExtractedEntity list" where
  \<comment> \<open>the array \<open>entities\<close> after the four pushes\<close>
  "collected_1 h text =
     (let entities = extractPersons_1 h text;
          entities = entities @ extractOrganizations_1 h text;
          entities = entities @ extractConcepts_1 h text
      in case extractContactInfo_1 h text entities of
           Inl e \<Rightarrow> Inl e
         | Inr contacts \<Rightarrow> Inr (entities @ contacts))"

definition extractEntities_1 :: "host \<Rightarrow> jsstring \<Rightarrow> error + ExtractedEntity list" where
  "extractEntities_1 h text =
     (case collected_1 h text of
        Inl e \<Rightarrow> Inl e
      | Inr entities \<Rightarrow> Inr (dedupLoop h [] [] entities))"

section \<open>The specification's reading of the deduplication\<close>

text \<open>
  The specification describes the deduplication as a merge: candidates are identified by
  type and lower-cased name; the first-seen candidate stays, and the properties of a later
  candidate with the same key are added to it unless the key of the property exists.
\<close>

definition sameKey :: "host \<Rightarrow> ExtractedEntity \<Rightarrow> ExtractedEntity \<Rightarrow> bool" where
  "sameKey h e c =
     (e_type e = e_type c \<and> toLowerCase h (e_name e) = toLowerCase h (e_name c))"

definition mergeProps :: "properties \<Rightarrow> properties \<Rightarrow> properties" where
  \<comment> \<open>union; an existing key keeps its value\<close>
  "mergeProps mine theirs = mine @ filter (\<lambda>kv. fst kv \<notin> fst ` set mine) theirs"

fun mergeCandidate :: "host \<Rightarrow> ExtractedEntity list \<Rightarrow> ExtractedEntity \<Rightarrow> ExtractedEntity list"
  where
  "mergeCandidate h [] c = [c]"
| "mergeCandidate h (e # es) c =
     (if sameKey h e c
      then e\<lparr>e_properties := mergeProps (e_properties e) (e_properties c)\<rparr> # es
      else e # mergeCandidate h es c)"

definition mergeByKey :: "host \<Rightarrow> ExtractedEntity list \<Rightarrow> ExtractedEntity list" where
  "mergeByKey h cs = foldl (mergeCandidate h) [] cs"

section \<open>Example data\<close>

definition ex_entities :: "ExtractedEntity list" where
  "ex_entities =
     [\<lparr>e_type = Person, e_name = js ''Ann'', e_properties = [], e_confidence = 8 / 10\<rparr>,
      \<lparr>e_type = Person, e_name = js ''Bob'', e_properties = [], e_confidence = 8 / 10\<rparr>,
      \<lparr>e_type = Organization, e_name = js ''Acme'', e_properties = [], e_confidence = 7 / 10\<rparr>]"

definition ex_explicit :: "ExtractedRelation list" where
  "ex_explicit =
     [\<lparr>sourceType = Person, sourceName = js ''ANN'', targetType = Organization,
       targetName = js ''acme'', relationType = Works_at, r_properties = [],
       r_confidence = 8 / 10\<rparr>]"

text \<open>
  The scenario of the specification: one vector candidate \<open>a\<close> with score 0.9 and
  importance 0.5, the graph set \<open>{b}\<close>, and \<open>b\<close> fetched with importance 0.2.
\<close>

definition sc_payload :: "jsstring \<Rightarrow> rat \<Rightarrow> QdrantPayload" where
  "sc_payload i imp =
     \<lparr>p_id = i, p_text = js ''memory '' @ i, p_category = Fact, p_importance = imp,
      p_createdAt = 0, p_language = EN, p_entityIds = Some []\<rparr>"

definition sc_point :: "jsstring \<Rightarrow> rat \<Rightarrow> QdrantPoint" where
  "sc_point i imp = \<lparr>pt_id = i, pt_vector = [], payload = sc_payload i imp\<rparr>"

definition sc_qdrant :: QdrantMemoryClient where
  "sc_qdrant =
     \<lparr>q_search = (\<lambda>v l s c g. Inr [\<lparr>point = sc_point (js ''a'') (5 / 10), score = 9 / 10\<rparr>]),
      q_getById = (\<lambda>i. if i = js ''b'' then Inr (Some (sc_point (js ''b'') (2 / 10)))
                        else Inr None)\<rparr>"

definition sc_nebula :: NebulaMemoryClient where
  "sc_nebula = \<lparr>findRelatedMemories = (\<lambda>names. Inr [js ''b''])\<rparr>"

definition sc_options :: HybridSearchOptions where
  "sc_options = \<lparr>limit = None, minScore = None, hybridWeight = Some (7 / 10),
     includeGraph = None, category = None, language = None\<rparr>"

definition sc_result_a :: HybridSearchResult where
  "sc_result_a =
     \<lparr>memory = memoryOf (js ''a'') (sc_payload (js ''a'') (5 / 10)),
      vectorScore = 9 / 10, graphScore = 0,
      combinedScore = 6124895493223875 / 9007199254740992, source = Vector\<rparr>"

definition sc_result_b :: HybridSearchResult where
  "sc_result_b =
     \<lparr>memory = memoryOf (js ''b'') (sc_payload (js ''b'') (2 / 10)),
      vectorScore = 0, graphScore = 7 / 10,
      combinedScore = 4143311657180857 / 18014398509481984, source = Graph\<rparr>"

text \<open>A graph store that is down, and a vector store whose fetch by identifier fails.\<close>

definition failing_nebula :: NebulaMemoryClient where
  "failing_nebula = \<lparr>findRelatedMemories = (\<lambda>names. Inl (Thrown (js ''graph down'')))\<rparr>"

text \<open>The same vector store with every failed fetch read as "not found".\<close>

definition absentOnFailure :: "QdrantMemoryClient \<Rightarrow> QdrantMemoryClient" where
  "absentOnFailure q =
     q\<lparr>q_getById := (\<lambda>i. case q_getById q i of Inl e \<Rightarrow> Inr None | Inr x \<Rightarrow> Inr x)\<rparr>"

definition sc_qdrant_unreachable :: QdrantMemoryClient where
  "sc_qdrant_unreachable = sc_qdrant\<lparr>q_getById := (\<lambda>i. Inl (Thrown (js ''timeout'')))\<rparr>"

text \<open>A vector store whose record of \<open>a\<close> lists two entity identifiers.\<close>

definition en_qdrant :: QdrantMemoryClient where
  "en_qdrant =
     sc_qdrant\<lparr>q_getById := (\<lambda>i.
        if i = js ''a''
        then Inr (Some ((sc_point i (5 / 10))\<lparr>payload := (sc_payload i (5 / 10))
               \<lparr>p_entityIds := Some [js ''person_john_smith'', js ''unknown'']\<rparr>\<rparr>))
        else Inr (Some (sc_point i (2 / 10))))\<rparr>"

definition en_result_a :: HybridSearchResult where
  "en_result_a =
     sc_result_a\<lparr>memory := (memory sc_result_a)
       \<lparr>m_entities := Some [\<lparr>es_id = js ''person_john_smith'', es_name = js ''John Smith'',
                                es_type = js ''person''\<rparr>]\<rparr>\<rparr>"

definition ex_inferred :: ExtractedRelation where
  "ex_inferred =
     \<lparr>sourceType = Person, sourceName = js ''Bob'', targetType = Organization,
      targetName = js ''Acme'', relationType = Related_to,
      r_properties = [(js ''inferred'', PBool True)], r_confidence = 4 / 10\<rparr>"

text \<open>
  A text with two mentions of one person and of one organization that differ in case,
  and a phone number, with the matches that the patterns of part_003 find in it.
\<close>

definition dup_text :: jsstring where
  "dup_text = js ''Call me Bob, call me BOB. Bob works at Acme, Ann works at ACME. +1 202 555 01 23''"

definition host_dup :: host where
  "host_dup =
     \<lparr>toLowerCase = asciiLower, toUpperCase = asciiUpper,
      rxTest = (\<lambda>r t. False),
      rxMatchAll = (\<lambda>r t.
        if r = PERSON_PATTERNS_EN 0
        then [[Some (js ''Call me Bob''), Some (js ''Bob'')],
              [Some (js ''call me BOB''), Some (js ''BOB'')]]
        else if r = ORGANIZATION_PATTERNS_EN 0
        then [[Some (js ''works at Acme,''), Some (js ''Acme'')],
              [Some (js ''works at ACME.''), Some (js ''ACME'')]]
        else if r = PHONE_PATTERN
        then [[Some (js ''+1 202 555 01 23''), Some (js ''+1 202 555 01 23'')]]
        else []),
      rxMatch = (\<lambda>r t. None), rxSplit = (\<lambda>r t. [t]),
      azMorph = (\<lambda>w. Inr [])\<rparr>"

definition dup_bob :: ExtractedEntity where
  "dup_bob =
     \<lparr>e_type = Person, e_name = js ''Bob'',
      e_properties = [(js ''phone'', PString (js ''+12025550123''))], e_confidence = 8 / 10\<rparr>"

text \<open>The same for the earlier revision: two patterns find the person, and an e-mail.\<close>

definition dup_text_1 :: jsstring where
  "dup_text_1 = js ''Call me john. John is my friend, john@example.com''"

definition host_dup_1 :: host where
  "host_dup_1 =
     \<lparr>toLowerCase = asciiLower, toUpperCase = asciiUpper,
      rxTest = (\<lambda>r t. False),
      rxMatchAll = (\<lambda>r t. []),
      rxMatch = (\<lambda>r t.
        if r = PERSON_PATTERNS 0 then Some [Some (js ''Call me john''), Some (js ''john'')]
        else if r = PERSON_PATTERNS 5
        then Some [Some (js ''John is my friend''), Some (js ''John'')]
        else if r = EMAIL_PATTERN
        then Some [Some (js ''john@example.com''), Some (js ''john@example.com'')]
        else None),
      rxSplit = (\<lambda>r t. [t]),
      azMorph = (\<lambda>w. Inr [])\<rparr>"

definition dup_john :: ExtractedEntity where
  "dup_john =
     \<lparr>e_type = Person, e_name = js ''john'',
      e_properties = [(js ''email'', PString (js ''john@example.com''))],
      e_confidence = 8 / 10\<rparr>"

text \<open>
  A Russian text, a name in the genitive after a preposition, with the match of the
  fourth Russian person pattern and a dictionary that knows the name.
\<close>

definition ru_dmitriya :: jsstring where
  "ru_dmitriya = [0x0414, 0x043C, 0x0438, 0x0442, 0x0440, 0x0438, 0x044F]"

definition ru_dmitriy :: jsstring where
  "ru_dmitriy = [0x0414, 0x043C, 0x0438, 0x0442, 0x0440, 0x0438, 0x0439]"

definition ru_text :: jsstring where
  "ru_text = [0x043E, 0x0442, 0x20] @ ru_dmitriya"

definition cyrillicLower :: "jsstring \<Rightarrow> jsstring" where
  "cyrillicLower s = map (\<lambda>c. if 0x0410 \<le> c \<and> c \<le> 0x042F then c + 0x20 else c) s"

definition cyrillicUpper :: "jsstring \<Rightarrow> jsstring" where
  "cyrillicUpper s = map (\<lambda>c. if 0x0430 \<le> c \<and> c \<le> 0x044F then c - 0x20 else c) s"

definition host_ru :: host where
  "host_ru =
     \<lparr>toLowerCase = cyrillicLower, toUpperCase = cyrillicUpper,
      rxTest = (\<lambda>r t. False),
      rxMatchAll = (\<lambda>r t.
        if r = PERSON_PATTERNS_RU 3 then [[Some ru_text, Some ru_dmitriya]] else []),
      rxMatch = (\<lambda>r t. None), rxSplit = (\<lambda>r t. [t]),
      azMorph = (\<lambda>w.
        if w = ru_dmitriya
        then Inr [\<lparr>tag = \<lparr>POS = Some (js ''NOUN''), Name = True, Surn = False,
                           Patr = False, Geox = False, Orgn = False\<rparr>,
                   normalizedWord = Inr (Some (cyrillicLower ru_dmitriy))\<rparr>]
        else Inr [])\<rparr>"

section \<open>Properties of the double arithmetic\<close>


lemma pow2_pos: "0 < pow2 e"
  by (simp add: pow2_def)

lemma pow2_add_nat: "pow2 (e + int k) = 2 ^ k * pow2 e"
proof (cases "0 \<le> e")
  case True
  then show ?thesis by (simp add: pow2_def nat_add_distrib power_add)
next
  case False
  show ?thesis
  proof (cases "0 \<le> e + int k")
    case True
    then have "k = nat (e + int k) + nat (- e)" using False by linarith
    then have "(2::rat) ^ k = 2 ^ nat (e + int k) * 2 ^ nat (- e)"
      by (metis power_add)
    then show ?thesis using True False by (simp add: pow2_def)
  next
    case neg: False
    then have "nat (- e) = k + nat (- (e + int k))" by linarith
    then have "(2::rat) ^ nat (- e) = 2 ^ k * 2 ^ nat (- (e + int k))"
      by (metis power_add)
    then show ?thesis using neg False by (simp add: pow2_def)
  qed
qed

lemma pow2_mono: "a \<le> b \<Longrightarrow> pow2 a \<le> pow2 b"
proof -
  assume "a \<le> b"
  then have b: "b = a + int (nat (b - a))" by simp
  have "pow2 a \<le> 2 ^ nat (b - a) * pow2 a"
    using pow2_pos [of a] by (simp add: mult_le_cancel_right1 one_le_power)
  then show ?thesis using pow2_add_nat [of a "nat (b - a)"] b by simp
qed

lemma binExp_spec: "0 < x \<Longrightarrow> pow2 (binExp x) \<le> x \<and> x < pow2 (binExp x + 1)"
proof (induction x rule: binExp.induct)
  case (1 x)
  show ?case
  proof (cases "2 \<le> x")
    case True
    with 1 have IH: "pow2 (binExp (x / 2)) \<le> x / 2 \<and> x / 2 < pow2 (binExp (x / 2) + 1)"
      by simp
    have e: "binExp x = binExp (x / 2) + 1" using True by (subst binExp.simps) simp
    show ?thesis
      unfolding e using IH pow2_add_nat [of "binExp (x / 2)" 1]
        pow2_add_nat [of "binExp (x / 2) + 1" 1] by simp
  next
    case ge: False
    show ?thesis
    proof (cases "x < 1")
      case True
      with 1 ge have IH: "pow2 (binExp (x * 2)) \<le> x * 2 \<and> x * 2 < pow2 (binExp (x * 2) + 1)"
        by simp
      have e: "binExp x = binExp (x * 2) - 1" using True ge 1 by (subst binExp.simps) simp
      show ?thesis
        unfolding e using IH pow2_add_nat [of "binExp (x * 2) - 1" 1]
          pow2_add_nat [of "binExp (x * 2)" 1] by simp
    next
      case False
      then have e: "binExp x = 0" using ge 1 by (subst binExp.simps) simp
      show ?thesis unfolding e using False ge by (simp add: pow2_def)
    qed
  qed
qed

lemma roundHalfEven_error: "\<bar>of_int (roundHalfEven q) - q\<bar> \<le> 1 / 2"
proof -
  have "of_int \<lfloor>q\<rfloor> \<le> q" "q < of_int \<lfloor>q\<rfloor> + 1" by linarith+
  then show ?thesis by (auto simp: roundHalfEven_def Let_def)
qed

lemma roundHalfEven_nonneg: "0 \<le> q \<Longrightarrow> 0 \<le> roundHalfEven q"
  by (auto simp: roundHalfEven_def Let_def)

lemma dbl_zero [simp]: "dbl 0 = 0"
  by (simp add: dbl_def)

lemma dbl_nonneg: "0 \<le> x \<Longrightarrow> 0 \<le> dbl x"
  using pow2_pos [of "max (binExp \<bar>x\<bar> - 52) (- 1074)"]
  by (auto simp: dbl_def Let_def intro!: mult_nonneg_nonneg roundHalfEven_nonneg)

lemma dbl_error: "\<bar>dbl x - x\<bar> \<le> pow2 (max (binExp \<bar>x\<bar> - 52) (- 1074)) / 2"
proof (cases "x = 0")
  case True
  then show ?thesis using pow2_pos [of "max (binExp \<bar>x\<bar> - 52) (- 1074)"] by simp
next
  case False
  define u where "u = pow2 (max (binExp \<bar>x\<bar> - 52) (- 1074))"
  define R :: rat where "R = of_int (roundHalfEven (\<bar>x\<bar> / u))"
  have u: "0 < u" unfolding u_def by (rule pow2_pos)
  have "\<bar>R - \<bar>x\<bar> / u\<bar> \<le> 1 / 2" unfolding R_def by (rule roundHalfEven_error)
  then have "\<bar>R - \<bar>x\<bar> / u\<bar> * u \<le> 1 / 2 * u" using u by (simp only: mult_le_cancel_right_pos)
  moreover have "\<bar>R - \<bar>x\<bar> / u\<bar> * u = \<bar>R * u - \<bar>x\<bar>\<bar>"
  proof -
    have "\<bar>R - \<bar>x\<bar> / u\<bar> * u = \<bar>(R - \<bar>x\<bar> / u) * u\<bar>" using u by (simp add: abs_mult)
    also have "(R - \<bar>x\<bar> / u) * u = R * u - \<bar>x\<bar>" using u by (simp add: field_simps)
    finally show ?thesis .
  qed
  ultimately have a: "\<bar>R * u - \<bar>x\<bar>\<bar> \<le> u / 2" by simp
  have d: "dbl x = sgn x * R * u" using False by (simp add: dbl_def Let_def u_def R_def)
  have "sgn x * (R * u - \<bar>x\<bar>) = sgn x * R * u - sgn x * \<bar>x\<bar>"
    by (simp add: algebra_simps)
  then have "dbl x - x = sgn x * (R * u - \<bar>x\<bar>)"
    unfolding d by (simp only: mult_sgn_abs)
  then have "\<bar>dbl x - x\<bar> = \<bar>R * u - \<bar>x\<bar>\<bar>" using False by (simp add: abs_mult abs_sgn_eq)
  then show ?thesis using a unfolding u_def by simp
qed

lemma dbl_abs_error: "\<bar>x\<bar> < 2 \<Longrightarrow> \<bar>dbl x - x\<bar> \<le> 1 / 2 ^ 53"
proof (cases "x = 0")
  case True
  then show ?thesis by simp
next
  case False
  assume x: "\<bar>x\<bar> < 2"
  from False have "0 < \<bar>x\<bar>" by simp
  then have s: "pow2 (binExp \<bar>x\<bar>) \<le> \<bar>x\<bar>" using binExp_spec by blast
  have "binExp \<bar>x\<bar> \<le> 0"
  proof (rule ccontr)
    assume "\<not> binExp \<bar>x\<bar> \<le> 0"
    then have "1 \<le> binExp \<bar>x\<bar>" by simp
    then have "pow2 1 \<le> pow2 (binExp \<bar>x\<bar>)" by (rule pow2_mono)
    then show False using s x by (simp add: pow2_def)
  qed
  then have "max (binExp \<bar>x\<bar> - 52) (- 1074) \<le> - 52" by simp
  then have "pow2 (max (binExp \<bar>x\<bar> - 52) (- 1074)) \<le> pow2 (- 52)" by (rule pow2_mono)
  then have "pow2 (max (binExp \<bar>x\<bar> - 52) (- 1074)) / 2 \<le> 1 / 2 ^ 53"
    by (simp add: pow2_def)
  with dbl_error [of x] show ?thesis by linarith
qed

lemma dbl_rel_error: "1 \<le> x \<Longrightarrow> \<bar>dbl x - x\<bar> \<le> x / 2 ^ 53"
proof -
  assume x: "1 \<le> x"
  then have p: "0 < x" by simp
  then have s: "pow2 (binExp x) \<le> x" "x < pow2 (binExp x + 1)" using binExp_spec by blast+
  have e: "0 \<le> binExp x"
  proof (rule ccontr)
    assume "\<not> 0 \<le> binExp x"
    then have "binExp x + 1 \<le> 0" by simp
    then have "pow2 (binExp x + 1) \<le> pow2 0" by (rule pow2_mono)
    then show False using s x by (simp add: pow2_def)
  qed
  then have m: "max (binExp x - 52) (- 1074) = binExp x - 52" by simp
  have "pow2 (binExp x - 52 + int 52) = 2 ^ 52 * pow2 (binExp x - 52)" by (rule pow2_add_nat)
  then have "pow2 (binExp x - 52) = pow2 (binExp x) / 2 ^ 52" by simp
  then have "pow2 (binExp x - 52) / 2 \<le> x / 2 ^ 53" using s by simp
  with dbl_error [of x] m p show ?thesis by simp
qed

lemma foldl_addD_error:
  "\<forall>y \<in> set ys. 0 \<le> y \<Longrightarrow> 0 \<le> s \<Longrightarrow>
   s + sum_list ys + of_nat (length ys) / 2 ^ 53 < 2 \<Longrightarrow>
   \<bar>foldl addD s ys - (s + sum_list ys)\<bar> \<le> of_nat (length ys) / 2 ^ 53"
proof (induction ys arbitrary: s)
  case Nil
  then show ?case by simp
next
  case (Cons y ys)
  define eps :: rat where "eps = 1 / 2 ^ 53"
  define L :: rat where "L = of_nat (length ys) / 2 ^ 53"
  have L: "0 \<le> L" unfolding L_def by simp
  have eps: "0 \<le> eps" unfolding eps_def by simp
  have LS: "of_nat (length (y # ys)) / 2 ^ 53 = L + eps"
    unfolding L_def eps_def by (simp add: add_divide_distrib)
  have y: "0 \<le> y" and ys: "\<forall>y \<in> set ys. 0 \<le> y" using Cons.prems(1) by simp_all
  have sum: "0 \<le> sum_list ys" using ys by (simp add: sum_list_nonneg)
  have b: "s + (y + sum_list ys) + (L + eps) < 2"
    using Cons.prems(3) unfolding LS by simp
  have "\<bar>s + y\<bar> < 2" using b sum L eps y Cons.prems(2) by linarith
  then have "\<bar>addD s y - (s + y)\<bar> \<le> 1 / 2 ^ 53" unfolding addD_def by (rule dbl_abs_error)
  then have e: "\<bar>addD s y - (s + y)\<bar> \<le> eps" unfolding eps_def .
  have n: "0 \<le> addD s y" unfolding addD_def using y Cons.prems(2) by (simp add: dbl_nonneg)
  have "addD s y + sum_list ys + L < 2" using b e by linarith
  then have "addD s y + sum_list ys + of_nat (length ys) / 2 ^ 53 < 2" unfolding L_def .
  from Cons.IH [OF ys n this]
  have "\<bar>foldl addD (addD s y) ys - (addD s y + sum_list ys)\<bar> \<le> L" unfolding L_def .
  then have "\<bar>foldl addD (addD s y) ys - (s + (y + sum_list ys))\<bar> \<le> L + eps"
    using e by linarith
  then show ?case unfolding LS by simp
qed

subsection \<open>The doubles of the literals\<close>

lemma mulD_nonneg: "0 \<le> a \<Longrightarrow> 0 \<le> b \<Longrightarrow> 0 \<le> mulD a b"
  unfolding mulD_def by (rule dbl_nonneg) (rule mult_nonneg_nonneg)

lemma dbl_1_5: "dbl (1 / 5) = 3602879701896397 / 18014398509481984"
  by code_simp

lemma dbl_3_20: "dbl (3 / 20) = 5404319552844595 / 36028797018963968"
  by code_simp

lemma dbl_1_10: "dbl (1 / 10) = 3602879701896397 / 36028797018963968"
  by code_simp

lemma dbl_1_20: "dbl (1 / 20) = 3602879701896397 / 72057594037927936"
  by code_simp

lemma dbl_1: "dbl 1 = 1"
  by code_simp

lemma dbl_2: "dbl 2 = 2"
  by code_simp

lemma dbl_3: "dbl 3 = 3"
  by code_simp

lemma mulD_1_20:
  "mulD 1 (3602879701896397 / 72057594037927936) = 3602879701896397 / 72057594037927936"
  "mulD 2 (3602879701896397 / 72057594037927936) = 3602879701896397 / 36028797018963968"
  "mulD 3 (3602879701896397 / 72057594037927936) = 1351079888211149 / 9007199254740992"
  by code_simp+

lemmas dbl_literals = dbl_1_5 dbl_3_20 dbl_1_10 dbl_1_20 dbl_1 dbl_2 dbl_3

lemma addD_examples:
  "addD (1 / 2) (3602879701896397 / 18014398509481984) = 3152519739159347 / 4503599627370496"
  "addD (3152519739159347 / 4503599627370496) (3602879701896397 / 36028797018963968)
     = 7205759403792793 / 9007199254740992"
  "addD (1 / 2) (3602879701896397 / 36028797018963968) = 5404319552844595 / 9007199254740992"
  "addD (5404319552844595 / 9007199254740992) (3602879701896397 / 18014398509481984)
     = 3602879701896397 / 4503599627370496"
  "addD (5404319552844595 / 9007199254740992) (3602879701896397 / 36028797018963968)
     = 3152519739159347 / 4503599627370496"
  by code_simp+

text \<open>The doubles of the scoring scenario.\<close>

lemma mulD_zero [simp]: "mulD 0 b = 0" "mulD a 0 = 0"
  by (simp_all add: mulD_def)

lemma scenario_doubles:
  "dbl (7 / 10) = 3152519739159347 / 4503599627370496"
  "dbl (9 / 10) = 8106479329266893 / 9007199254740992"
  "dbl (1 / 2) = 1 / 2"
  "dbl (17 / 25) = 6124895493223875 / 9007199254740992"
  "dbl (23 / 100) = 8286623314361713 / 36028797018963968"
  "subD 1 (3152519739159347 / 4503599627370496) = 1351079888211149 / 4503599627370496"
  "mulD (8106479329266893 / 9007199254740992) (3152519739159347 / 4503599627370496)
     = 5674535530486825 / 9007199254740992"
  "mulD (1 / 2) (3602879701896397 / 36028797018963968) = 3602879701896397 / 72057594037927936"
  "addD (5674535530486825 / 9007199254740992) 0 = 5674535530486825 / 9007199254740992"
  "addD (5674535530486825 / 9007199254740992) (3602879701896397 / 72057594037927936)
     = 6124895493223875 / 9007199254740992"
  "mulD (3152519739159347 / 4503599627370496) (1351079888211149 / 4503599627370496)
     = 3783023686991217 / 18014398509481984"
  "addD 0 (3783023686991217 / 18014398509481984) = 3783023686991217 / 18014398509481984"
  "mulD (3602879701896397 / 18014398509481984) (3602879701896397 / 36028797018963968)
     = 1441151880758559 / 72057594037927936"
  "addD (3783023686991217 / 18014398509481984) (1441151880758559 / 72057594037927936)
     = 4143311657180857 / 18014398509481984"
  by code_simp+

section \<open>Properties of the capture decision engine\<close>

lemma startsWith_iff: "startsWith text p \<longleftrightarrow> (\<exists>b. text = p @ b)"
  unfolding startsWith_def by (metis append_eq_conv_conj)

lemma jsIncludes_iff: "jsIncludes text p \<longleftrightarrow> (\<exists>a b. text = a @ p @ b)"
proof (induction "text")
  case Nil
  show ?case by auto
next
  case (Cons c cs)
  show ?case
  proof
    assume "jsIncludes (c # cs) p"
    then consider "startsWith (c # cs) p" | "jsIncludes cs p" by auto
    then show "\<exists>a b. c # cs = a @ p @ b"
    proof cases
      case 1
      then obtain b where "c # cs = p @ b" by (auto simp: startsWith_iff)
      then have "c # cs = [] @ p @ b" by simp
      then show ?thesis by blast
    next
      case 2
      then obtain a b where "cs = a @ p @ b" using Cons.IH by auto
      then have "c # cs = (c # a) @ p @ b" by simp
      then show ?thesis by blast
    qed
  next
    assume "\<exists>a b. c # cs = a @ p @ b"
    then obtain a b where ab: "c # cs = a @ p @ b" by auto
    show "jsIncludes (c # cs) p"
    proof (cases a)
      case Nil
      with ab have "startsWith (c # cs) p" by (auto simp: startsWith_iff)
      then show ?thesis by simp
    next
      case (Cons x a')
      with ab have "cs = a' @ p @ b" by simp
      then have "jsIncludes cs p" using Cons.IH by auto
      then show ?thesis by simp
    qed
  qed
qed

text \<open>
  C8. For every text, \<open>detectLanguage\<close> returns \<open>ru\<close> if the text contains a code unit of
  the Cyrillic block (0400 to 04FF); otherwise \<open>cs\<close> if it contains one of the fifteen
  Czech letters of the pattern, in either case (the pattern has the \<open>i\<close> flag); otherwise
  \<open>en\<close>. The checks are made in that order, so a text with both kinds of letters is
  Russian.
\<close>

theorem detectLanguage_priority:
  "detectLanguage text =
     (if (\<exists>c \<in> set text. 0x0400 \<le> c \<and> c \<le> 0x04FF) then RU
      else if (\<exists>c \<in> set text. c \<in> set czech_letters \<union> set czech_capitals) then CS
      else EN)"
  by (simp add: detectLanguage_def list_ex_iff CYRILLIC_PATTERN_def CZECH_PATTERN_def)

theorem detectLanguage_priority_witness:
  "detectLanguage ([0x011B] @ js ''x'' @ [0x0434]) = RU
   \<and> detectLanguage (js ''Preferuji tmav'' @ [0x00FD]) = CS
   \<and> detectLanguage (js ''I prefer dark mode'') = EN"
  using detectLanguage_priority [of "[0x011B] @ js ''x'' @ [0x0434]"]
    detectLanguage_priority [of "js ''Preferuji tmav'' @ [0x00FD]"]
    detectLanguage_priority [of "js ''I prefer dark mode''"]
  by (simp add: js_def czech_letters_def czech_capitals_def)

text \<open>
  C6. Whatever the enabled languages and whatever the trigger patterns match (the host is
  arbitrary), \<open>shouldCapture\<close> returns false for a text shorter than 10 code units or
  longer than the upper bound (the constant 2000 in part_002, 500 in part_001), and for a
  text that contains the delimiter \<open><relevant-memories>\<close>.
\<close>

theorem shouldCapture_rejects:
  "(length text < 10 \<or> length text > 2000 \<or> jsIncludes text (js ''<relevant-memories>'')
      \<longrightarrow> \<not> shouldCapture h text languages)
   \<and> (length text < 10 \<or> length text > 500 \<or> jsIncludes text (js ''<relevant-memories>'')
      \<longrightarrow> \<not> shouldCapture_1 h text languages)"
  by (auto simp: shouldCapture_def shouldCapture_1_def)

text \<open>
  The hypotheses exclude nothing by accident: in a host where every trigger matches, a
  text of ordinary length is captured, and the short one and the one with the delimiter
  are not.
\<close>

lemma triggered_host_all:
  "languages \<noteq> [] \<Longrightarrow> triggered host_all TRIGGERS_BY_LANGUAGE t languages"
  by (cases languages; cases "hd languages")
     (simp_all add: triggered_def host_all_def TRIGGERS_BY_LANGUAGE_def list_ex_iff)

lemma shouldCapture_accepts_example:
  "shouldCapture host_all (js ''I prefer dark mode'') [EN]"
  by (simp add: shouldCapture_def triggered_host_all js_def startsWith_def emojiCount_def
      codeIndicators_def isHighSurrogate_def)

theorem shouldCapture_rejects_witness:
  "\<not> shouldCapture host_all (js ''Short'') [EN]
   \<and> \<not> shouldCapture_1 host_all
        (js ''<relevant-memories>I prefer dark mode</relevant-memories>'') [EN]"
  using shouldCapture_rejects [of "js ''Short''" host_all "[EN]"]
    shouldCapture_rejects
      [of "js ''<relevant-memories>I prefer dark mode</relevant-memories>''" host_all "[EN]"]
  by (simp add: js_def startsWith_def)

subsection \<open>The increments of the importance\<close>

lemma foldl_opt: "foldl addD s (if p then [x] else []) = (if p then addD s x else s)"
  by simp

lemma sum_list_opt: "sum_list (if p then [x] else []) = (if p then x else (0::rat))"
  by simp

lemma truthy_positive: "(n \<noteq> 0 \<and> 0 < n) = (0 < (n::int))"
  by auto

lemma calculateImportance_sequential:
  "calculateImportance h text entityCount
     = min (foldl addD (1 / 2) (importanceIncrements h text entityCount)) 1"
  by (cases entityCount)
     (simp_all add: calculateImportance_def importanceIncrements_def entityDensityBonus_def
        Let_def foldl_opt truthy_positive split del: if_split cong del: if_weak_cong)

lemma density_large:
  assumes n: "4 \<le> n"
  shows "min (mulD (dbl (of_int n)) (dbl (5 / 100))) (dbl (15 / 100)) = dbl (15 / 100)"
proof -
  define N where "N = dbl (of_int n)"
  define x where "x = N * dbl (5 / 100)"
  have n4: "4 \<le> (of_int n :: rat)" using n by simp
  then have "\<bar>N - of_int n\<bar> \<le> of_int n / 2 ^ 53" unfolding N_def by (intro dbl_rel_error) simp
  then have "of_int n - of_int n / 2 ^ 53 \<le> N" by linarith
  moreover have "39 / 10 \<le> (of_int n :: rat) - of_int n / 2 ^ 53" using n4 by simp
  ultimately have N: "39 / 10 \<le> N" by linarith
  have "39 / 10 * dbl (5 / 100) \<le> x" unfolding x_def using N
    by (intro mult_right_mono) (simp_all add: dbl_literals)
  then have x: "19 / 100 \<le> x" by (simp add: dbl_literals)
  have "18 / 100 \<le> dbl x"
  proof (cases "x < 2")
    case True
    then have "\<bar>dbl x - x\<bar> \<le> 1 / 2 ^ 53" using x by (intro dbl_abs_error) simp
    then have "x - 1 / 2 ^ 53 \<le> dbl x" by linarith
    then show ?thesis using x by simp
  next
    case False
    then have "\<bar>dbl x - x\<bar> \<le> x / 2 ^ 53" by (intro dbl_rel_error) simp
    then have "x - x / 2 ^ 53 \<le> dbl x" by linarith
    then show ?thesis using False by simp
  qed
  then have "dbl (15 / 100) \<le> mulD N (dbl (5 / 100))"
    unfolding mulD_def x_def [symmetric] by (simp add: dbl_literals)
  then show ?thesis unfolding N_def by (simp add: min_def)
qed

lemma entityDensityBonus_range:
  "\<forall>y \<in> set (entityDensityBonus entityCount). 0 \<le> y \<and> y \<le> 16 / 100"
proof (cases entityCount)
  case None
  then show ?thesis by (simp add: entityDensityBonus_def)
next
  case (Some n)
  have "0 < n \<Longrightarrow> 0 \<le> mulD (dbl (of_int n)) (dbl (5 / 100))"
    by (intro mulD_nonneg dbl_nonneg) simp_all
  then show ?thesis using Some by (auto simp: entityDensityBonus_def dbl_literals min_def)
qed

lemma entityDensityBonus_exact:
  assumes "\<forall>n. entityCount = Some n \<longrightarrow> 0 \<le> n"
  shows "\<bar>sum_list (entityDensityBonus entityCount)
           - (case entityCount of None \<Rightarrow> 0 | Some n \<Rightarrow> min (of_int n * (5 / 100)) (15 / 100))\<bar>
         \<le> 1 / 2 ^ 53"
proof (cases entityCount)
  case None
  then show ?thesis by (simp add: entityDensityBonus_def)
next
  case (Some n)
  with assms have n: "0 \<le> n" by simp
  consider "n = 0" | "n = 1" | "n = 2" | "n = 3" | "4 \<le> n" using n by linarith
  then show ?thesis
  proof cases
    case 5
    then have "(4::rat) \<le> of_int n" by simp
    then have "min (of_int n * (5 / 100)) (15 / 100) = (15 / 100 :: rat)" by (simp add: min_def)
    then show ?thesis using Some 5 density_large [OF 5]
      by (simp add: entityDensityBonus_def dbl_literals)
  qed (simp_all add: Some entityDensityBonus_def dbl_literals mulD_1_20)
qed

lemma importanceIncrements_nonneg:
  "\<forall>y \<in> set (importanceIncrements h text entityCount). 0 \<le> y"
  using entityDensityBonus_range [of entityCount]
  by (auto simp: importanceIncrements_def dbl_literals split: if_splits)

lemma opt_le: "0 \<le> b \<Longrightarrow> x \<le> b \<Longrightarrow> (if p then x else (0::rat)) \<le> b"
  by simp

lemma importanceIncrements_sum:
  "sum_list (importanceIncrements h text entityCount) \<le> 97 / 100"
proof -
  have "sum_list (entityDensityBonus entityCount) \<le> 16 / 100"
    using entityDensityBonus_range [of entityCount]
    by (cases entityCount) (auto simp: entityDensityBonus_def)
  moreover have "(if rxTest h IMPORTANT_KEYWORDS text then dbl (2 / 10) else 0) \<le> 21 / 100"
    by (rule opt_le) (simp_all add: dbl_literals)
  moreover have "(if rxTest h MEMORY_COMMAND_EN text \<or> rxTest h MEMORY_COMMAND_RU text
      then dbl (15 / 100) else 0) \<le> 16 / 100"
    by (rule opt_le) (simp_all add: dbl_literals)
  moreover have "(if rxTest h CONTACT_INFO text then dbl (1 / 10) else 0) \<le> 11 / 100"
    by (rule opt_le) (simp_all add: dbl_literals)
  moreover have "(if rxTest h PERSONAL_INFO text then dbl (1 / 10) else 0) \<le> 11 / 100"
    by (rule opt_le) (simp_all add: dbl_literals)
  moreover have "(if rxTest h DECISION_KEYWORDS text then dbl (1 / 10) else 0) \<le> 11 / 100"
    by (rule opt_le) (simp_all add: dbl_literals)
  moreover have "(if rxTest h RELATIONSHIP_MENTION text then dbl (1 / 10) else 0) \<le> 11 / 100"
    by (rule opt_le) (simp_all add: dbl_literals)
  ultimately show ?thesis
    unfolding importanceIncrements_def sum_list_append sum_list_opt by linarith
qed

lemma importanceIncrements_length: "length (importanceIncrements h text entityCount) \<le> 7"
  by (cases entityCount) (simp_all add: importanceIncrements_def entityDensityBonus_def)

lemma opt_error:
  "\<bar>c\<bar> < 2 \<Longrightarrow> \<bar>(if p then dbl c else 0) - (if p then c else 0)\<bar> \<le> 1 / 2 ^ 53"
  using dbl_abs_error [of c] by simp

lemma abs_diff_add:
  "\<bar>a - b\<bar> \<le> x \<Longrightarrow> \<bar>c - d\<bar> \<le> y \<Longrightarrow> \<bar>(a + c) - (b + d)\<bar> \<le> x + (y::rat)"
  by linarith

lemma importanceIncrements_exact:
  assumes "\<forall>n. entityCount = Some n \<longrightarrow> 0 \<le> n"
  shows "\<bar>sum_list (importanceIncrements h text entityCount)
           - sum_list (exactIncrements h text entityCount)\<bar> \<le> 7 / 2 ^ 53"
proof -
  note e = opt_error [of "2 / 10"] opt_error [of "15 / 100"] opt_error [of "1 / 10"]
  have "\<bar>sum_list (importanceIncrements h text entityCount)
           - sum_list (exactIncrements h text entityCount)\<bar>
        \<le> 1 / 2 ^ 53 + (1 / 2 ^ 53 + (1 / 2 ^ 53 + (1 / 2 ^ 53 + (1 / 2 ^ 53
            + (1 / 2 ^ 53 + 1 / 2 ^ 53)))))"
    unfolding importanceIncrements_def exactIncrements_def sum_list_append sum_list_opt
      sum_list.Cons sum_list.Nil add_0_right
    by (intro abs_diff_add entityDensityBonus_exact [OF assms] opt_error) simp_all
  then show ?thesis by simp
qed

lemma of_nat_le_7: "n \<le> 7 \<Longrightarrow> (of_nat n :: rat) / 2 ^ 53 \<le> 7 / 2 ^ 53"
  by (simp add: divide_le_cancel)

lemma importance_fold_error:
  assumes m: "mset ys = mset (importanceIncrements h text entityCount)"
  shows "\<bar>foldl addD (1 / 2) ys
           - (1 / 2 + sum_list (importanceIncrements h text entityCount))\<bar> \<le> 7 / 2 ^ 53"
proof -
  let ?is = "importanceIncrements h text entityCount"
  have s: "set ys = set ?is" using m by (rule mset_eq_setD)
  have l: "length ys = length ?is" using m by (rule mset_eq_length)
  have t: "sum_list ys = sum_list ?is" using m by (metis sum_mset_sum_list)
  have len: "(of_nat (length ys) :: rat) / 2 ^ 53 \<le> 7 / 2 ^ 53"
    unfolding l by (rule of_nat_le_7) (rule importanceIncrements_length)
  have nn: "\<forall>y \<in> set ys. 0 \<le> y" unfolding s by (rule importanceIncrements_nonneg)
  have "sum_list ys \<le> 97 / 100" unfolding t by (rule importanceIncrements_sum)
  then have "1 / 2 + sum_list ys + of_nat (length ys) / 2 ^ 53 < 2" using len by simp
  from foldl_addD_error [OF nn _ this]
  have "\<bar>foldl addD (1 / 2) ys - (1 / 2 + sum_list ys)\<bar> \<le> of_nat (length ys) / 2 ^ 53"
    by simp
  then show ?thesis unfolding t using len by linarith
qed

lemma two_errors:
  "\<bar>a - e\<bar> \<le> 7 / 2 ^ 53 \<Longrightarrow> \<bar>b - e\<bar> \<le> 7 / 2 ^ 53 \<Longrightarrow> \<bar>a - b\<bar> \<le> (1::rat) / 2 ^ 49"
proof -
  assume "\<bar>a - e\<bar> \<le> 7 / 2 ^ 53" "\<bar>b - e\<bar> \<le> 7 / 2 ^ 53"
  then have "\<bar>a - b\<bar> \<le> 7 / 2 ^ 53 + 7 / 2 ^ 53" by linarith
  moreover have "7 / 2 ^ 53 + 7 / 2 ^ 53 \<le> (1::rat) / 2 ^ 49" by simp
  ultimately show ?thesis by linarith
qed

lemma min_1_error: "\<bar>a - b\<bar> \<le> e \<Longrightarrow> \<bar>min a 1 - min b 1\<bar> \<le> (e::rat)"
  by (simp add: min_def) linarith

text \<open>
  C7, as amended. \<open>calculateImportance\<close> is the minimum of 1 and the result of adding
  to 0.5, one after the other in the order of the source and each addition rounded to a
  double, the increments that apply: 0.2, 0.15, 0.1, 0.1, 0.1, 0.1, each when its own test
  of the text holds, and min(entityCount * 0.05, 0.15) when a positive count is given.
  Adding the same increments in any other order gives the same result up to 2^-49, and
  for a count that is absent or not negative the result is within 2^-49 of the exact
  minimum of 1 and 0.5 plus the seven increments of the claim. A count that is zero or
  negative adds nothing.
\<close>

theorem calculateImportance_additive:
  "calculateImportance h text entityCount
     = min (foldl addD (1 / 2) (importanceIncrements h text entityCount)) 1
   \<and> (\<forall>ys. mset ys = mset (importanceIncrements h text entityCount)
         \<longrightarrow> \<bar>min (foldl addD (1 / 2) ys) 1 - calculateImportance h text entityCount\<bar>
               \<le> 1 / 2 ^ 49)
   \<and> ((\<forall>n. entityCount = Some n \<longrightarrow> 0 \<le> n)
         \<longrightarrow> \<bar>calculateImportance h text entityCount
               - min 1 (1 / 2 + sum_list (exactIncrements h text entityCount))\<bar> \<le> 1 / 2 ^ 49)
   \<and> ((\<forall>n. entityCount = Some n \<longrightarrow> n \<le> 0)
         \<longrightarrow> calculateImportance h text entityCount = calculateImportance h text None)"
proof (intro conjI allI impI)
  let ?is = "importanceIncrements h text entityCount"
  let ?E = "1 / 2 + sum_list ?is"
  show seq: "calculateImportance h text entityCount = min (foldl addD (1 / 2) ?is) 1"
    by (rule calculateImportance_sequential)
  have c: "\<bar>foldl addD (1 / 2) ?is - ?E\<bar> \<le> 7 / 2 ^ 53"
    by (rule importance_fold_error) simp
  {
    fix ys assume "mset ys = mset ?is"
    then have "\<bar>foldl addD (1 / 2) ys - ?E\<bar> \<le> 7 / 2 ^ 53" by (rule importance_fold_error)
    then have "\<bar>foldl addD (1 / 2) ys - foldl addD (1 / 2) ?is\<bar> \<le> 1 / 2 ^ 49"
      using c by (rule two_errors)
    then show "\<bar>min (foldl addD (1 / 2) ys) 1 - calculateImportance h text entityCount\<bar>
        \<le> 1 / 2 ^ 49"
      unfolding seq by (rule min_1_error)
  }
  {
    assume "\<forall>n. entityCount = Some n \<longrightarrow> 0 \<le> n"
    then have "\<bar>sum_list ?is - sum_list (exactIncrements h text entityCount)\<bar> \<le> 7 / 2 ^ 53"
      by (rule importanceIncrements_exact)
    then have "\<bar>1 / 2 + sum_list (exactIncrements h text entityCount) - ?E\<bar> \<le> 7 / 2 ^ 53"
      by linarith
    with c have "\<bar>foldl addD (1 / 2) ?is
        - (1 / 2 + sum_list (exactIncrements h text entityCount))\<bar> \<le> 1 / 2 ^ 49"
      by (rule two_errors)
    then have "\<bar>min (foldl addD (1 / 2) ?is) 1
        - min (1 / 2 + sum_list (exactIncrements h text entityCount)) 1\<bar> \<le> 1 / 2 ^ 49"
      by (rule min_1_error)
    then show "\<bar>calculateImportance h text entityCount
               - min 1 (1 / 2 + sum_list (exactIncrements h text entityCount))\<bar> \<le> 1 / 2 ^ 49"
      unfolding seq by (simp add: min.commute)
  }
  {
    assume "\<forall>n. entityCount = Some n \<longrightarrow> n \<le> 0"
    then show "calculateImportance h text entityCount = calculateImportance h text None"
      by (cases entityCount) (simp_all add: calculateImportance_def Let_def)
  }
qed

theorem calculateImportance_additive_witness:
  "(0::int) \<le> 2
   \<and> mset (rev (importanceIncrements host_contact (js ''My phone is +12025551234'') (Some 2)))
       = mset (importanceIncrements host_contact (js ''My phone is +12025551234'') (Some 2))
   \<and> calculateImportance host_contact (js ''My phone is +12025551234'') (Some 2)
       = 3152519739159347 / 4503599627370496
   \<and> \<bar>min (foldl addD (1 / 2)
          (rev (importanceIncrements host_contact (js ''My phone is +12025551234'') (Some 2)))) 1
        - calculateImportance host_contact (js ''My phone is +12025551234'') (Some 2)\<bar>
       \<le> 1 / 2 ^ 49
   \<and> \<bar>calculateImportance host_contact (js ''My phone is +12025551234'') (Some 2)
        - min 1 (1 / 2
            + sum_list (exactIncrements host_contact (js ''My phone is +12025551234'') (Some 2)))\<bar>
       \<le> 1 / 2 ^ 49
   \<and> (- 3 :: int) \<le> 0
   \<and> calculateImportance host_contact (js ''My phone is +12025551234'') (Some (- 3))
       = calculateImportance host_contact (js ''My phone is +12025551234'') None"
proof -
  let ?t = "js ''My phone is +12025551234''"
  note a = calculateImportance_additive [of host_contact ?t "Some 2"]
  note b = calculateImportance_additive [of host_contact ?t "Some (- 3)"]
  have i: "importanceIncrements host_contact ?t (Some 2)
      = [3602879701896397 / 36028797018963968, 3602879701896397 / 36028797018963968]"
    by (simp add: importanceIncrements_def entityDensityBonus_def host_contact_def
        dbl_literals mulD_1_20)
  from a have "calculateImportance host_contact ?t (Some 2)
      = min (foldl addD (1 / 2) (importanceIncrements host_contact ?t (Some 2))) 1"
    by blast
  then have v: "calculateImportance host_contact ?t (Some 2) = 3152519739159347 / 4503599627370496"
    unfolding i by (simp add: addD_examples)
  from a have "\<forall>ys. mset ys = mset (importanceIncrements host_contact ?t (Some 2))
         \<longrightarrow> \<bar>min (foldl addD (1 / 2) ys) 1 - calculateImportance host_contact ?t (Some 2)\<bar>
               \<le> 1 / 2 ^ 49"
    by blast
  then have o: "\<bar>min (foldl addD (1 / 2) (rev (importanceIncrements host_contact ?t (Some 2)))) 1
      - calculateImportance host_contact ?t (Some 2)\<bar> \<le> 1 / 2 ^ 49"
    by simp
  have h: "\<forall>n. Some (2::int) = Some n \<longrightarrow> 0 \<le> n" by simp
  from a h have e: "\<bar>calculateImportance host_contact ?t (Some 2)
      - min 1 (1 / 2 + sum_list (exactIncrements host_contact ?t (Some 2)))\<bar> \<le> 1 / 2 ^ 49"
    by blast
  have h': "\<forall>n. Some (- 3 :: int) = Some n \<longrightarrow> n \<le> 0" by simp
  from b h' have n: "calculateImportance host_contact ?t (Some (- 3))
      = calculateImportance host_contact ?t None"
    by blast
  show ?thesis using v o e n by simp
qed

text \<open>
  The claim as it was stated fails on two counts. With the importance markers and the
  contact information present the source computes (0.5 + 0.2) + 0.1 = 0.7999999999999999,
  the other order gives (0.5 + 0.1) + 0.2 = 0.8, which is also the double nearest to the
  exact sum: the result depends on the order of the additions. And for the count -3 the
  source gives 0.5 where the formula of the claim gives 0.35.
\<close>

theorem calculateImportance_order_dependent:
  "calculateImportance host_important_contact (js ''Important: a@b.co'') None
     = 7205759403792793 / 9007199254740992
   \<and> importanceIncrements host_important_contact (js ''Important: a@b.co'') None
     = [dbl (2 / 10), dbl (1 / 10)]
   \<and> min (foldl addD (1 / 2) [dbl (1 / 10), dbl (2 / 10)]) 1
     = 3602879701896397 / 4503599627370496
   \<and> min 1 (1 / 2 + sum_list (exactIncrements host_important_contact (js ''Important: a@b.co'')
        None)) = 8 / 10
   \<and> dbl (8 / 10) = 3602879701896397 / 4503599627370496
   \<and> calculateImportance host_ascii (js ''hello world'') (Some (- 3)) = 1 / 2
   \<and> min 1 (1 / 2 + sum_list (exactIncrements host_ascii (js ''hello world'') (Some (- 3))))
     = 35 / 100"
proof (intro conjI)
  show "dbl (8 / 10) = 3602879701896397 / 4503599627370496" by code_simp
qed (simp_all add: calculateImportance_def importanceIncrements_def entityDensityBonus_def
      exactIncrements_def host_important_contact_def host_ascii_def dbl_literals addD_examples)

section \<open>Properties of the implicit relation inference\<close>


lemma coOccurrences_member:
  "r \<in> set (coOccurrences h pairs person ty targets) \<Longrightarrow>
   \<exists>t \<in> set targets. r = impliedRelation person ty t
      \<and> pairKey h (e_name person) (e_name t) \<notin> set pairs"
  by (auto simp: coOccurrences_def)

lemma inferImplicitRelations_member:
  assumes "r \<in> set (inferImplicitRelations h entities explicitRelations)"
  shows "\<exists>p \<in> set entities. \<exists>t \<in> set entities.
           e_type p = Person \<and> e_type t \<in> {Organization, Location, Concept}
           \<and> r = impliedRelation p (e_type t) t
           \<and> pairKey h (e_name p) (e_name t) \<notin> set (explicitPairs h explicitRelations)"
proof -
  from assms obtain p where p: "p \<in> set entities" "e_type p = Person"
    and r: "r \<in> set (coOccurrences h (explicitPairs h explicitRelations) p Organization
                  (filter (\<lambda>e. e_type e = Organization) entities))
          \<or> r \<in> set (coOccurrences h (explicitPairs h explicitRelations) p Location
                  (filter (\<lambda>e. e_type e = Location) entities))
          \<or> r \<in> set (coOccurrences h (explicitPairs h explicitRelations) p Concept
                  (filter (\<lambda>e. e_type e = Concept) entities))"
    by (auto simp: inferImplicitRelations_def Let_def)
  from r obtain t where "t \<in> set entities" "e_type t \<in> {Organization, Location, Concept}"
    "r = impliedRelation p (e_type t) t"
    "pairKey h (e_name p) (e_name t) \<notin> set (explicitPairs h explicitRelations)"
    by (auto dest!: coOccurrences_member)
  with p show ?thesis by blast
qed

lemma explicitPairs_member:
  "x \<in> set explicitRelations \<Longrightarrow>
   pairKey h (sourceName x) (targetName x) \<in> set (explicitPairs h explicitRelations)
   \<and> pairKey h (targetName x) (sourceName x) \<in> set (explicitPairs h explicitRelations)"
  by (auto simp: explicitPairs_def)

text \<open>
  C3. Every relation returned by \<open>inferImplicitRelations\<close> has type \<open>related_to\<close>,
  confidence 0.4 and the single property \<open>inferred = true\<close>; its source is the name of a
  person of the entity list and its target the name of an organization, location or
  concept of the list, with that type (so never a person); and no explicit relation has
  the same unordered pair of names, compared exactly or after lower-casing. The function
  only reads the explicit relations: they are an argument of a pure function.
\<close>

theorem inferImplicitRelations_sound:
  "\<forall>r \<in> set (inferImplicitRelations h entities explicitRelations).
     relationType r = Related_to
     \<and> r_confidence r = 4 / 10
     \<and> r_properties r = [(js ''inferred'', PBool True)]
     \<and> sourceType r = Person
     \<and> targetType r \<in> {Organization, Location, Concept}
     \<and> (\<exists>p \<in> set entities. e_type p = Person \<and> e_name p = sourceName r)
     \<and> (\<exists>t \<in> set entities. e_type t = targetType r \<and> e_name t = targetName r)
     \<and> (\<forall>x \<in> set explicitRelations.
          {sourceName x, targetName x} \<noteq> {sourceName r, targetName r}
          \<and> {toLowerCase h (sourceName x), toLowerCase h (targetName x)}
              \<noteq> {toLowerCase h (sourceName r), toLowerCase h (targetName r)})"
proof
  fix r assume "r \<in> set (inferImplicitRelations h entities explicitRelations)"
  then obtain p t where p: "p \<in> set entities" "e_type p = Person"
    and t: "t \<in> set entities" "e_type t \<in> {Organization, Location, Concept}"
    and r: "r = impliedRelation p (e_type t) t"
    and k: "pairKey h (e_name p) (e_name t) \<notin> set (explicitPairs h explicitRelations)"
    using inferImplicitRelations_member by blast
  have names: "sourceName r = e_name p" "targetName r = e_name t"
    by (simp_all add: r impliedRelation_def)
  have pairs: "{toLowerCase h (sourceName x), toLowerCase h (targetName x)}
              \<noteq> {toLowerCase h (sourceName r), toLowerCase h (targetName r)}"
    if "x \<in> set explicitRelations" for x
  proof
    assume eq: "{toLowerCase h (sourceName x), toLowerCase h (targetName x)}
              = {toLowerCase h (sourceName r), toLowerCase h (targetName r)}"
    then consider "toLowerCase h (sourceName x) = toLowerCase h (e_name p)
          \<and> toLowerCase h (targetName x) = toLowerCase h (e_name t)"
      | "toLowerCase h (sourceName x) = toLowerCase h (e_name t)
          \<and> toLowerCase h (targetName x) = toLowerCase h (e_name p)"
      unfolding names by (auto simp: doubleton_eq_iff)
    then show False
    proof cases
      case 1
      then have "pairKey h (sourceName x) (targetName x) = pairKey h (e_name p) (e_name t)"
        by (simp add: pairKey_def)
      with explicitPairs_member [OF that, of h] k show False by simp
    next
      case 2
      then have "pairKey h (targetName x) (sourceName x) = pairKey h (e_name p) (e_name t)"
        by (simp add: pairKey_def)
      with explicitPairs_member [OF that, of h] k show False by simp
    qed
  qed
  have exact: "{sourceName x, targetName x} \<noteq> {sourceName r, targetName r}"
    if "x \<in> set explicitRelations" for x
  proof
    assume "{sourceName x, targetName x} = {sourceName r, targetName r}"
    then have "toLowerCase h ` {sourceName x, targetName x}
        = toLowerCase h ` {sourceName r, targetName r}" by simp
    then show False using pairs [OF that] by simp
  qed
  show "relationType r = Related_to
     \<and> r_confidence r = 4 / 10
     \<and> r_properties r = [(js ''inferred'', PBool True)]
     \<and> sourceType r = Person
     \<and> targetType r \<in> {Organization, Location, Concept}
     \<and> (\<exists>p \<in> set entities. e_type p = Person \<and> e_name p = sourceName r)
     \<and> (\<exists>t \<in> set entities. e_type t = targetType r \<and> e_name t = targetName r)
     \<and> (\<forall>x \<in> set explicitRelations.
          {sourceName x, targetName x} \<noteq> {sourceName r, targetName r}
          \<and> {toLowerCase h (sourceName x), toLowerCase h (targetName x)}
              \<noteq> {toLowerCase h (sourceName r), toLowerCase h (targetName r)})"
  proof (intro conjI ballI)
    show "\<exists>p \<in> set entities. e_type p = Person \<and> e_name p = sourceName r"
      using p names by auto
    show "\<exists>t \<in> set entities. e_type t = targetType r \<and> e_name t = targetName r"
      using t(1) by (auto simp: r impliedRelation_def)
    show "targetType r \<in> {Organization, Location, Concept}"
      using t(2) by (simp add: r impliedRelation_def)
  qed (use pairs exact in \<open>simp_all add: r impliedRelation_def\<close>)
qed

text \<open>
  An example: Ann and Bob with Acme, and an explicit relation between ANN and acme. The
  pair of Ann and Acme is suppressed (the keys are compared in lower case), the pair of
  Bob and Acme is inferred, and no relation between the two persons is.
\<close>

lemma ex_infer: "inferImplicitRelations host_ascii ex_entities ex_explicit =
     [ex_inferred]"
  by (simp add: inferImplicitRelations_def ex_entities_def ex_explicit_def explicitPairs_def
      coOccurrences_def impliedRelation_def ex_inferred_def pairKey_def host_ascii_def asciiLower_def js_def)

theorem inferImplicitRelations_sound_witness:
  "ex_inferred \<in> set (inferImplicitRelations host_ascii ex_entities ex_explicit)
   \<and> relationType ex_inferred = Related_to
   \<and> r_confidence ex_inferred = 4 / 10
   \<and> sourceType ex_inferred = Person
   \<and> targetType ex_inferred \<in> {Organization, Location, Concept}"
proof -
  have m: "ex_inferred \<in> set (inferImplicitRelations host_ascii ex_entities ex_explicit)"
    by (simp add: ex_infer)
  from inferImplicitRelations_sound [of host_ascii ex_entities ex_explicit] m
  show ?thesis by blast
qed

section \<open>Properties of the hybrid search\<close>


text \<open>The graph set has the members of the list that the collaborator returned.\<close>

lemma foldl_setAdd:
  "set (foldl setAdd s xs) = set s \<union> set xs
   \<and> (distinct s \<longrightarrow> distinct (foldl setAdd s xs))"
  by (induction xs arbitrary: s) (auto simp: setAdd_def)

lemma set_newSet: "set (newSet xs) = set xs"
  by (simp add: newSet_def foldl_setAdd)

lemma distinct_newSet: "distinct (newSet xs)"
  by (simp add: newSet_def foldl_setAdd)

lemma mapSet_keys: "fst ` set (mapSet m k v) = insert k (fst ` set m)"
  by (induction m k v rule: mapSet.induct) auto

lemma mapSet_distinct: "distinct (map fst m) \<Longrightarrow> distinct (map fst (mapSet m k v))"
proof (induction m k v rule: mapSet.induct)
  case (1 k v)
  show ?case by simp
next
  case (2 k' v' m k v)
  have "set (map fst (mapSet m k v)) = insert k (fst ` set m)"
    using mapSet_keys [of m k v] by simp
  with 2 show ?case by auto
qed

lemma mapSet_entry:
  "e \<in> set (mapSet m k v) \<Longrightarrow> e = (k, v) \<or> e \<in> set m"
  by (induction m k v rule: mapSet.induct) (auto split: if_splits)

lemma mapSet_keeps:
  "e \<in> set m \<Longrightarrow> fst e \<noteq> k \<Longrightarrow> e \<in> set (mapSet m k v)"
  by (induction m k v rule: mapSet.induct) auto

lemma mapSet_length: "length m \<le> length (mapSet m k v) \<and> length (mapSet m k v) \<le> Suc (length m)"
  by (induction m k v rule: mapSet.induct) auto

text \<open>The loop over the vector candidates.\<close>

lemma vector_loop_entries:
  "e \<in> set (foldl (addVectorResult G) m vrs) \<Longrightarrow>
   e \<in> set m \<or> (\<exists>vr \<in> set vrs. e = (pt_id (point vr), vectorEntry G vr))"
proof (induction vrs arbitrary: m)
  case Nil
  then show ?case by simp
next
  case (Cons vr vrs)
  from Cons.prems have "e \<in> set (foldl (addVectorResult G) (addVectorResult G m vr) vrs)"
    by simp
  from Cons.IH [OF this] show ?case
    by (auto simp: addVectorResult_def dest: mapSet_entry)
qed

lemma vector_loop_keys:
  "fst ` set (foldl (addVectorResult G) m vrs) = fst ` set m \<union> (\<lambda>vr. pt_id (point vr)) ` set vrs"
  by (induction vrs arbitrary: m) (auto simp: addVectorResult_def mapSet_keys)

lemma vector_loop_distinct:
  "distinct (map fst m) \<Longrightarrow> distinct (map fst (foldl (addVectorResult G) m vrs))"
  by (induction vrs arbitrary: m) (simp_all add: addVectorResult_def mapSet_distinct)

lemma vector_loop_length:
  "length (foldl (addVectorResult G) m vrs) \<le> length m + length vrs"
proof (induction vrs arbitrary: m)
  case Nil
  show ?case by simp
next
  case (Cons vr vrs)
  have "length (addVectorResult G m vr) \<le> Suc (length m)"
    by (simp add: addVectorResult_def mapSet_length)
  with Cons.IH [of "addVectorResult G m vr"] show ?case by simp
qed

text \<open>The loop over the graph identifiers.\<close>

lemma addGraphResult_entry:
  "e \<in> set (addGraphResult q m g) \<Longrightarrow>
   e \<in> set m \<or> (g \<notin> fst ` set m \<and> (\<exists>pt. q_getById q g = Inr (Some pt) \<and> e = (g, graphEntry g pt)))"
  by (auto simp: addGraphResult_def mapHas_def split: if_splits sum.splits option.splits
      dest: mapSet_entry)

lemma addGraphResult_keeps: "e \<in> set m \<Longrightarrow> e \<in> set (addGraphResult q m g)"
  by (auto simp: addGraphResult_def mapHas_def split: sum.splits option.splits
      intro!: mapSet_keeps)

lemma addGraphResult_keys:
  "fst ` set (addGraphResult q m g) =
     fst ` set m \<union> (if (\<exists>pt. q_getById q g = Inr (Some pt)) then {g} else {})"
  by (auto simp: addGraphResult_def mapHas_def mapSet_keys split: sum.splits option.splits)

lemma addGraphResult_distinct:
  "distinct (map fst m) \<Longrightarrow> distinct (map fst (addGraphResult q m g))"
  by (auto simp: addGraphResult_def mapSet_distinct split: sum.splits option.splits)

lemma addGraphResult_length: "length (addGraphResult q m g) \<le> Suc (length m)"
  using mapSet_length [of m g]
  by (auto simp: addGraphResult_def split: sum.splits option.splits)

lemma graph_loop_entries:
  "e \<in> set (foldl (addGraphResult q) m G) \<Longrightarrow>
   e \<in> set m \<or> (\<exists>g \<in> set G. g \<notin> fst ` set m
        \<and> (\<exists>pt. q_getById q g = Inr (Some pt) \<and> e = (g, graphEntry g pt)))"
proof (induction G arbitrary: m)
  case Nil
  then show ?case by simp
next
  case (Cons g G)
  from Cons.prems have "e \<in> set (foldl (addGraphResult q) (addGraphResult q m g) G)"
    by simp
  from Cons.IH [OF this] show ?case
  proof
    assume "e \<in> set (addGraphResult q m g)"
    from addGraphResult_entry [OF this] show ?thesis by auto
  next
    assume "\<exists>g' \<in> set G. g' \<notin> fst ` set (addGraphResult q m g)
        \<and> (\<exists>pt. q_getById q g' = Inr (Some pt) \<and> e = (g', graphEntry g' pt))"
    then obtain g' pt where g': "g' \<in> set G" "g' \<notin> fst ` set (addGraphResult q m g)"
      "q_getById q g' = Inr (Some pt)" "e = (g', graphEntry g' pt)" by blast
    from g'(2) have "g' \<notin> fst ` set m" by (auto simp: addGraphResult_keys)
    with g' show ?thesis by auto
  qed
qed

lemma graph_loop_keeps: "e \<in> set m \<Longrightarrow> e \<in> set (foldl (addGraphResult q) m G)"
  by (induction G arbitrary: m) (simp_all add: addGraphResult_keeps)

lemma graph_loop_keys:
  "fst ` set (foldl (addGraphResult q) m G) =
     fst ` set m \<union> {g \<in> set G. \<exists>pt. q_getById q g = Inr (Some pt)}"
  by (induction G arbitrary: m) (auto simp: addGraphResult_keys split: if_splits)

lemma graph_loop_distinct:
  "distinct (map fst m) \<Longrightarrow> distinct (map fst (foldl (addGraphResult q) m G))"
  by (induction G arbitrary: m) (simp_all add: addGraphResult_distinct)

lemma graph_loop_length: "length (foldl (addGraphResult q) m G) \<le> length m + length G"
proof (induction G arbitrary: m)
  case Nil
  show ?case by simp
next
  case (Cons g G)
  from Cons.IH [of "addGraphResult q m g"] addGraphResult_length [of q m g]
  show ?case by simp
qed

text \<open>The result map.\<close>

lemma fuse_entries:
  assumes "e \<in> set (fuse q vrs G)"
  shows "(\<exists>vr \<in> set vrs. e = (pt_id (point vr), vectorEntry G vr))
       \<or> (\<exists>g \<in> set G. g \<notin> (\<lambda>vr. pt_id (point vr)) ` set vrs
            \<and> (\<exists>pt. q_getById q g = Inr (Some pt) \<and> e = (g, graphEntry g pt)))"
proof -
  from assms graph_loop_entries [of e q "foldl (addVectorResult G) [] vrs" G]
  consider "e \<in> set (foldl (addVectorResult G) [] vrs)"
    | "\<exists>g \<in> set G. g \<notin> fst ` set (foldl (addVectorResult G) [] vrs)
        \<and> (\<exists>pt. q_getById q g = Inr (Some pt) \<and> e = (g, graphEntry g pt))"
    by (auto simp: fuse_def)
  then show ?thesis
  proof cases
    case 1
    with vector_loop_entries [of e G "[]" vrs] show ?thesis by simp
  next
    case 2
    then show ?thesis by (simp add: vector_loop_keys)
  qed
qed

lemma fuse_keys:
  "fst ` set (fuse q vrs G) =
     (\<lambda>vr. pt_id (point vr)) ` set vrs \<union> {g \<in> set G. \<exists>pt. q_getById q g = Inr (Some pt)}"
  by (simp add: fuse_def graph_loop_keys vector_loop_keys)

lemma fuse_distinct: "distinct (map fst (fuse q vrs G))"
  by (simp add: fuse_def graph_loop_distinct vector_loop_distinct)

lemma fuse_length: "length (fuse q vrs G) \<le> length vrs + length G"
  using graph_loop_length [of q "foldl (addVectorResult G) [] vrs" G]
    vector_loop_length [of G "[]" vrs]
  by (simp add: fuse_def)

lemma fuse_key_is_id: "e \<in> set (fuse q vrs G) \<Longrightarrow> m_id (memory (snd e)) = fst e"
  by (auto dest!: fuse_entries simp: vectorEntry_def graphEntry_def memoryOf_def Let_def)

text \<open>Scoring, sorting and truncation.\<close>

lemma withCombinedScore_simps [simp]:
  "memory (withCombinedScore w r) = memory r"
  "vectorScore (withCombinedScore w r) = vectorScore r"
  "graphScore (withCombinedScore w r) = graphScore r"
  "source (withCombinedScore w r) = source r"
  "combinedScore (withCombinedScore w r)
     = addD (addD (mulD (dbl (vectorScore r)) (dbl w))
                  (mulD (dbl (graphScore r)) (subD 1 (dbl w))))
            (mulD (dbl (m_importance (memory r))) (dbl (1 / 10)))"
  by (simp_all add: withCombinedScore_def Let_def)

lemma set_sliceFromStart: "set (sliceFromStart xs n) \<subseteq> set xs"
  by (auto simp: sliceFromStart_def dest: in_set_takeD)

lemma sliceFromStart_all: "int (length xs) \<le> n \<Longrightarrow> sliceFromStart xs n = xs"
  by (simp add: sliceFromStart_def)

lemma distinct_sliceFromStart:
  "distinct (map f xs) \<Longrightarrow> distinct (map f (sliceFromStart xs n))"
  by (simp add: sliceFromStart_def take_map [symmetric])

lemma set_sortByCombinedScore [simp]: "set (sortByCombinedScore rs) = set rs"
  by (simp add: sortByCombinedScore_def)

lemma length_sortByCombinedScore [simp]: "length (sortByCombinedScore rs) = length rs"
  by (simp add: sortByCombinedScore_def)

lemma distinct_sortByCombinedScore:
  "distinct (map f rs) \<Longrightarrow> distinct (map f (sortByCombinedScore rs))"
proof -
  have "mset (map f (sortByCombinedScore rs)) = mset (map f rs)"
    by (simp add: sortByCombinedScore_def)
  then show "distinct (map f rs) \<Longrightarrow> distinct (map f (sortByCombinedScore rs))"
    by (metis mset_eq_imp_distinct_iff)
qed

lemma search_Inr:
  assumes "q_search q vector (limitOf options * 2) (minScoreOf options)
             (category options) (language options) = Inr vrs"
    and "graphLookup n (includeGraphOf options) entityNames = Inr G"
  shows "search q n vector query entityNames options
         = Inr (sliceFromStart (ranked q vrs G (hybridWeightOf options)) (limitOf options))"
  using assms by (simp add: search_def Let_def)

lemma search_cases:
  assumes "search q n vector query entityNames options = Inr rs"
  obtains vrs G where
    "q_search q vector (limitOf options * 2) (minScoreOf options)
             (category options) (language options) = Inr vrs"
    "graphLookup n (includeGraphOf options) entityNames = Inr G"
    "rs = sliceFromStart (ranked q vrs G (hybridWeightOf options)) (limitOf options)"
  using assms by (auto simp: search_def Let_def split: sum.splits)

lemma ranked_member:
  "r \<in> set (ranked q vrs G w) \<Longrightarrow>
   \<exists>e \<in> set (fuse q vrs G). r = withCombinedScore w (snd e)"
  by (auto simp: ranked_def mapValues_def)

lemma ranked_ids: "map (\<lambda>r. m_id (memory r)) (map (withCombinedScore w) (mapValues (fuse q vrs G)))
    = map fst (fuse q vrs G)"
  by (simp add: mapValues_def fuse_key_is_id)

lemma ranked_distinct: "distinct (map (\<lambda>r. m_id (memory r)) (ranked q vrs G w))"
  unfolding ranked_def
  by (rule distinct_sortByCombinedScore) (simp only: ranked_ids fuse_distinct)

lemma ranked_length: "length (ranked q vrs G w) \<le> length vrs + length G"
  using fuse_length [of q vrs G] by (simp add: ranked_def mapValues_def)

lemma ranked_complete:
  "i \<in> fst ` set (fuse q vrs G) \<Longrightarrow> \<exists>r \<in> set (ranked q vrs G w). m_id (memory r) = i"
proof -
  assume "i \<in> fst ` set (fuse q vrs G)"
  then obtain e where e: "e \<in> set (fuse q vrs G)" "fst e = i" by auto
  then have "withCombinedScore w (snd e) \<in> set (ranked q vrs G w)"
    by (auto simp: ranked_def mapValues_def)
  moreover have "m_id (memory (withCombinedScore w (snd e))) = i"
    using e by (simp add: fuse_key_is_id)
  ultimately show ?thesis by blast
qed

lemma ranked_sorted: "sorted (map (\<lambda>r. - combinedScore r) (ranked q vrs G w))"
  by (simp add: ranked_def sortByCombinedScore_def)

text \<open>
  C2. When the vector search and the graph lookup return, \<open>search\<close> returns a list with
  at most one result for an identifier, in which every result whose identifier is in the
  vector list and in the graph set has graph-score 0.5 and provenance \<open>both\<close>; every
  result whose identifier is in the vector list only has graph-score 0 and provenance
  \<open>vector\<close>; and every other result has an identifier of the graph set that the vector
  store returned a record for, vector-score 0, graph-score 0.7 and provenance \<open>graph\<close>.
  When the limit does not truncate, every identifier of the vector list and every
  identifier of the graph set that was found is in the list.
\<close>

theorem search_provenance:
  assumes vs: "q_search q vector (limitOf options * 2) (minScoreOf options)
             (category options) (language options) = Inr vectorResults"
    and gs: "graphLookup n (includeGraphOf options) entityNames = Inr graphMemoryIds"
  shows "\<exists>rs. search q n vector query entityNames options = Inr rs
     \<and> distinct (map (\<lambda>r. m_id (memory r)) rs)
     \<and> (\<forall>r \<in> set rs.
          (m_id (memory r) \<in> (\<lambda>vr. pt_id (point vr)) ` set vectorResults
             \<and> m_id (memory r) \<in> set graphMemoryIds
           \<longrightarrow> graphScore r = 5 / 10 \<and> source r = Both)
        \<and> (m_id (memory r) \<in> (\<lambda>vr. pt_id (point vr)) ` set vectorResults
             \<and> m_id (memory r) \<notin> set graphMemoryIds
           \<longrightarrow> graphScore r = 0 \<and> source r = Vector)
        \<and> (m_id (memory r) \<notin> (\<lambda>vr. pt_id (point vr)) ` set vectorResults
           \<longrightarrow> m_id (memory r) \<in> set graphMemoryIds
               \<and> (\<exists>pt. q_getById q (m_id (memory r)) = Inr (Some pt))
               \<and> vectorScore r = 0 \<and> graphScore r = 7 / 10 \<and> source r = Graph))
     \<and> (int (length vectorResults + length graphMemoryIds) \<le> limitOf options \<longrightarrow>
          (\<forall>i. i \<in> (\<lambda>vr. pt_id (point vr)) ` set vectorResults
                \<or> (i \<in> set graphMemoryIds \<and> (\<exists>pt. q_getById q i = Inr (Some pt)))
              \<longrightarrow> (\<exists>r \<in> set rs. m_id (memory r) = i)))"
proof -
  let ?w = "hybridWeightOf options"
  let ?all = "ranked q vectorResults graphMemoryIds ?w"
  let ?rs = "sliceFromStart ?all (limitOf options)"
  let ?V = "(\<lambda>vr. pt_id (point vr)) ` set vectorResults"
  have s: "search q n vector query entityNames options = Inr ?rs"
    using vs gs by (rule search_Inr)
  have d: "distinct (map (\<lambda>r. m_id (memory r)) ?rs)"
    by (rule distinct_sliceFromStart) (rule ranked_distinct)
  have each: "(m_id (memory r) \<in> ?V \<and> m_id (memory r) \<in> set graphMemoryIds
           \<longrightarrow> graphScore r = 5 / 10 \<and> source r = Both)
        \<and> (m_id (memory r) \<in> ?V \<and> m_id (memory r) \<notin> set graphMemoryIds
           \<longrightarrow> graphScore r = 0 \<and> source r = Vector)
        \<and> (m_id (memory r) \<notin> ?V
           \<longrightarrow> m_id (memory r) \<in> set graphMemoryIds
               \<and> (\<exists>pt. q_getById q (m_id (memory r)) = Inr (Some pt))
               \<and> vectorScore r = 0 \<and> graphScore r = 7 / 10 \<and> source r = Graph)"
    if "r \<in> set ?rs" for r
  proof -
    from that have "r \<in> set ?all" by (rule subsetD [OF set_sliceFromStart])
    then obtain e where e: "e \<in> set (fuse q vectorResults graphMemoryIds)"
      and r: "r = withCombinedScore ?w (snd e)"
      using ranked_member by blast
    from fuse_entries [OF e] show ?thesis
    proof
      assume "\<exists>vr \<in> set vectorResults. e = (pt_id (point vr), vectorEntry graphMemoryIds vr)"
      then obtain vr where vr: "vr \<in> set vectorResults"
        "e = (pt_id (point vr), vectorEntry graphMemoryIds vr)" by blast
      then have "m_id (memory r) = pt_id (point vr)"
        by (simp add: r vectorEntry_def memoryOf_def Let_def)
      with vr show ?thesis
        by (auto simp: r vectorEntry_def Let_def)
    next
      assume "\<exists>g \<in> set graphMemoryIds. g \<notin> ?V
            \<and> (\<exists>pt. q_getById q g = Inr (Some pt) \<and> e = (g, graphEntry g pt))"
      then obtain g pt where g: "g \<in> set graphMemoryIds" "g \<notin> ?V"
        "q_getById q g = Inr (Some pt)" "e = (g, graphEntry g pt)" by blast
      then have "m_id (memory r) = g" by (simp add: r graphEntry_def memoryOf_def)
      with g show ?thesis by (auto simp: r graphEntry_def)
    qed
  qed
  have complete: "\<exists>r \<in> set ?rs. m_id (memory r) = i"
    if big: "int (length vectorResults + length graphMemoryIds) \<le> limitOf options"
      and i: "i \<in> ?V \<or> (i \<in> set graphMemoryIds \<and> (\<exists>pt. q_getById q i = Inr (Some pt)))"
    for i
  proof -
    have "int (length ?all) \<le> limitOf options"
      using ranked_length [of q vectorResults graphMemoryIds ?w] big by linarith
    then have "?rs = ?all" by (rule sliceFromStart_all)
    moreover from i have "i \<in> fst ` set (fuse q vectorResults graphMemoryIds)"
      unfolding fuse_keys by blast
    ultimately show ?thesis using ranked_complete by simp
  qed
  show ?thesis
  proof (rule exI [of _ ?rs], intro conjI)
    show "search q n vector query entityNames options = Inr ?rs" by (rule s)
    show "distinct (map (\<lambda>r. m_id (memory r)) ?rs)" by (rule d)
    show "\<forall>r \<in> set ?rs.
          (m_id (memory r) \<in> ?V \<and> m_id (memory r) \<in> set graphMemoryIds
           \<longrightarrow> graphScore r = 5 / 10 \<and> source r = Both)
        \<and> (m_id (memory r) \<in> ?V \<and> m_id (memory r) \<notin> set graphMemoryIds
           \<longrightarrow> graphScore r = 0 \<and> source r = Vector)
        \<and> (m_id (memory r) \<notin> ?V
           \<longrightarrow> m_id (memory r) \<in> set graphMemoryIds
               \<and> (\<exists>pt. q_getById q (m_id (memory r)) = Inr (Some pt))
               \<and> vectorScore r = 0 \<and> graphScore r = 7 / 10 \<and> source r = Graph)"
      by (rule ballI) (rule each)
    show "int (length vectorResults + length graphMemoryIds) \<le> limitOf options \<longrightarrow>
          (\<forall>i. i \<in> ?V
                \<or> (i \<in> set graphMemoryIds \<and> (\<exists>pt. q_getById q i = Inr (Some pt)))
              \<longrightarrow> (\<exists>r \<in> set ?rs. m_id (memory r) = i))"
      by (intro impI allI) (rule complete)
  qed
qed

lemma search_combinedScore_general:
  "\<forall>rs. search q n vector query entityNames options = Inr rs \<longrightarrow>
      (\<forall>r \<in> set rs. combinedScore r
          = addD (addD (mulD (dbl (vectorScore r)) (dbl (hybridWeightOf options)))
                       (mulD (dbl (graphScore r)) (subD 1 (dbl (hybridWeightOf options)))))
                 (mulD (dbl (m_importance (memory r))) (dbl (1 / 10))))"
proof (intro allI impI ballI)
  fix rs r
  assume sr: "search q n vector query entityNames options = Inr rs" and r: "r \<in> set rs"
  from sr obtain vrs G where
    rs: "rs = sliceFromStart (ranked q vrs G (hybridWeightOf options)) (limitOf options)"
    by (rule search_cases)
  from r have "r \<in> set (ranked q vrs G (hybridWeightOf options))"
    unfolding rs by (rule subsetD [OF set_sliceFromStart])
  then obtain e where "r = withCombinedScore (hybridWeightOf options) (snd e)"
    by (auto dest: ranked_member)
  then show "combinedScore r
          = addD (addD (mulD (dbl (vectorScore r)) (dbl (hybridWeightOf options)))
                       (mulD (dbl (graphScore r)) (subD 1 (dbl (hybridWeightOf options)))))
                 (mulD (dbl (m_importance (memory r))) (dbl (1 / 10)))"
    by simp
qed

lemma sorted_sliceFromStart:
  "sorted (map f xs) \<Longrightarrow> sorted (map f (sliceFromStart xs n))"
  by (simp add: sliceFromStart_def take_map [symmetric] sorted_wrt_take)

lemma search_descending:
  "\<forall>rs. search q n vector query entityNames options = Inr rs \<longrightarrow>
      sorted_wrt (\<lambda>a b. combinedScore b \<le> combinedScore a) rs"
proof (intro allI impI)
  fix rs
  assume "search q n vector query entityNames options = Inr rs"
  then obtain vrs G where
    rs: "rs = sliceFromStart (ranked q vrs G (hybridWeightOf options)) (limitOf options)"
    by (rule search_cases)
  have "sorted (map (\<lambda>r. - combinedScore r) (ranked q vrs G (hybridWeightOf options)))"
    unfolding ranked_def sortByCombinedScore_def by (rule sorted_sort_key)
  then have "sorted (map (\<lambda>r. - combinedScore r) rs)"
    unfolding rs by (rule sorted_sliceFromStart)
  then show "sorted_wrt (\<lambda>a b. combinedScore b \<le> combinedScore a) rs"
    by (simp add: sorted_map)
qed

lemma sc_graphLookup: "graphLookup sc_nebula (includeGraphOf sc_options) [js ''x''] = Inr [js ''b'']"
  by (simp add: graphLookup_def sc_nebula_def sc_options_def includeGraphOf_def newSet_def
      setAdd_def)

lemma sc_fuse:
  "fuse sc_qdrant [\<lparr>point = sc_point (js ''a'') (5 / 10), score = 9 / 10\<rparr>] [js ''b'']
   = [(js ''a'', sc_result_a\<lparr>combinedScore := 0\<rparr>), (js ''b'', sc_result_b\<lparr>combinedScore := 0\<rparr>)]"
  by (simp add: fuse_def addVectorResult_def vectorEntry_def addGraphResult_def graphEntry_def
      mapHas_def sc_qdrant_def sc_point_def sc_result_a_def sc_result_b_def js_def Let_def)

lemma sc_search:
  "search sc_qdrant sc_nebula [] (js ''query'') [js ''x''] sc_options
   = Inr [sc_result_a, sc_result_b]"
proof -
  have "q_search sc_qdrant [] (limitOf sc_options * 2) (minScoreOf sc_options)
          (category sc_options) (language sc_options)
        = Inr [\<lparr>point = sc_point (js ''a'') (5 / 10), score = 9 / 10\<rparr>]"
    by (simp add: sc_qdrant_def)
  from search_Inr [OF this sc_graphLookup]
  have s: "search sc_qdrant sc_nebula [] (js ''query'') [js ''x''] sc_options
     = Inr (sliceFromStart (ranked sc_qdrant
         [\<lparr>point = sc_point (js ''a'') (5 / 10), score = 9 / 10\<rparr>] [js ''b'']
         (hybridWeightOf sc_options)) (limitOf sc_options))" .
  show ?thesis
    unfolding s ranked_def sc_fuse
    by (simp add: mapValues_def withCombinedScore_def
        sortByCombinedScore_def sliceFromStart_def limitOf_def hybridWeightOf_def
        sc_options_def sc_result_a_def sc_result_b_def memoryOf_def sc_payload_def
        dbl_literals scenario_doubles)
qed


text \<open>
  C1, as amended. Every result that \<open>search\<close> returns has the combined score
  vectorScore * hybridWeight + graphScore * (1 - hybridWeight) + importance * 0.1, each
  product, the difference and each sum rounded to a double, where hybridWeight is the
  option of the caller, 0.7 when it is absent; and the results are in descending order of
  that score. In the scenario (vector list with \<open>a\<close> at 0.9, graph set \<open>{b}\<close>,
  weight 0.7, importances 0.5 and 0.2) the result is \<open>a\<close> followed by \<open>b\<close>;
  the score of \<open>a\<close> is the double 0.68 and the score of \<open>b\<close> is
  0.23000000000000004, the double next above 0.23.
\<close>

theorem search_combinedScore:
  "(\<forall>rs. search q n vector query entityNames options = Inr rs \<longrightarrow>
      (\<forall>r \<in> set rs. combinedScore r
          = addD (addD (mulD (dbl (vectorScore r)) (dbl (hybridWeightOf options)))
                       (mulD (dbl (graphScore r)) (subD 1 (dbl (hybridWeightOf options)))))
                 (mulD (dbl (m_importance (memory r))) (dbl (1 / 10)))))
   \<and> (\<forall>rs. search q n vector query entityNames options = Inr rs \<longrightarrow>
        sorted_wrt (\<lambda>a b. combinedScore b \<le> combinedScore a) rs)
   \<and> hybridWeightOf (options\<lparr>hybridWeight := None\<rparr>) = 7 / 10
   \<and> hybridWeightOf (options\<lparr>hybridWeight := Some w\<rparr>) = w
   \<and> search sc_qdrant sc_nebula [] (js ''query'') [js ''x''] sc_options
       = Inr [sc_result_a, sc_result_b]
   \<and> m_id (memory sc_result_a) = js ''a'' \<and> combinedScore sc_result_a = dbl (68 / 100)
   \<and> m_id (memory sc_result_b) = js ''b''
   \<and> combinedScore sc_result_b = dbl (23 / 100) + 1 / 2 ^ 55"
proof (intro conjI)
  show "\<forall>rs. search q n vector query entityNames options = Inr rs \<longrightarrow>
      (\<forall>r \<in> set rs. combinedScore r
          = addD (addD (mulD (dbl (vectorScore r)) (dbl (hybridWeightOf options)))
                       (mulD (dbl (graphScore r)) (subD 1 (dbl (hybridWeightOf options)))))
                 (mulD (dbl (m_importance (memory r))) (dbl (1 / 10))))"
    by (rule search_combinedScore_general)
  show "\<forall>rs. search q n vector query entityNames options = Inr rs \<longrightarrow>
        sorted_wrt (\<lambda>a b. combinedScore b \<le> combinedScore a) rs"
    by (rule search_descending)
  show "search sc_qdrant sc_nebula [] (js ''query'') [js ''x''] sc_options
       = Inr [sc_result_a, sc_result_b]"
    by (rule sc_search)
qed (simp_all add: hybridWeightOf_def sc_result_a_def sc_result_b_def memoryOf_def
      scenario_doubles)

theorem search_combinedScore_witness:
  "search sc_qdrant sc_nebula [] (js ''query'') [js ''x''] sc_options
       = Inr [sc_result_a, sc_result_b]
   \<and> combinedScore sc_result_a
       = addD (addD (mulD (dbl (vectorScore sc_result_a)) (dbl (7 / 10)))
                    (mulD (dbl (graphScore sc_result_a)) (subD 1 (dbl (7 / 10)))))
              (mulD (dbl (m_importance (memory sc_result_a))) (dbl (1 / 10)))
   \<and> combinedScore sc_result_b
       = addD (addD (mulD (dbl (vectorScore sc_result_b)) (dbl (7 / 10)))
                    (mulD (dbl (graphScore sc_result_b)) (subD 1 (dbl (7 / 10)))))
              (mulD (dbl (m_importance (memory sc_result_b))) (dbl (1 / 10)))
   \<and> combinedScore sc_result_b \<le> combinedScore sc_result_a"
proof -
  have w: "hybridWeightOf sc_options = 7 / 10"
    by (simp add: hybridWeightOf_def sc_options_def)
  note t = search_combinedScore
    [of sc_qdrant sc_nebula "[]" "js ''query''" "[js ''x'']" sc_options]
  from t have s: "search sc_qdrant sc_nebula [] (js ''query'') [js ''x''] sc_options
       = Inr [sc_result_a, sc_result_b]"
    by blast
  from t have "\<forall>rs. search sc_qdrant sc_nebula [] (js ''query'') [js ''x''] sc_options = Inr rs \<longrightarrow>
      (\<forall>r \<in> set rs. combinedScore r
          = addD (addD (mulD (dbl (vectorScore r)) (dbl (hybridWeightOf sc_options)))
                       (mulD (dbl (graphScore r)) (subD 1 (dbl (hybridWeightOf sc_options)))))
                 (mulD (dbl (m_importance (memory r))) (dbl (1 / 10))))"
    by blast
  with s have g: "\<forall>r \<in> set [sc_result_a, sc_result_b]. combinedScore r
          = addD (addD (mulD (dbl (vectorScore r)) (dbl (7 / 10)))
                       (mulD (dbl (graphScore r)) (subD 1 (dbl (7 / 10)))))
                 (mulD (dbl (m_importance (memory r))) (dbl (1 / 10)))"
    unfolding w by blast
  from t have "\<forall>rs. search sc_qdrant sc_nebula [] (js ''query'') [js ''x''] sc_options = Inr rs \<longrightarrow>
        sorted_wrt (\<lambda>a b. combinedScore b \<le> combinedScore a) rs"
    by blast
  with s have "sorted_wrt (\<lambda>a b. combinedScore b \<le> combinedScore a) [sc_result_a, sc_result_b]"
    by blast
  then have d: "combinedScore sc_result_b \<le> combinedScore sc_result_a" by simp
  from g have a: "combinedScore sc_result_a
       = addD (addD (mulD (dbl (vectorScore sc_result_a)) (dbl (7 / 10)))
                    (mulD (dbl (graphScore sc_result_a)) (subD 1 (dbl (7 / 10)))))
              (mulD (dbl (m_importance (memory sc_result_a))) (dbl (1 / 10)))"
    and b: "combinedScore sc_result_b
       = addD (addD (mulD (dbl (vectorScore sc_result_b)) (dbl (7 / 10)))
                    (mulD (dbl (graphScore sc_result_b)) (subD 1 (dbl (7 / 10)))))
              (mulD (dbl (m_importance (memory sc_result_b))) (dbl (1 / 10)))"
    by simp_all
  from s a b d show ?thesis by blast
qed

text \<open>
  The claim as it was stated gives \<open>b\<close> the score 0.23. The source computes
  0.7 * (1 - 0.7) + 0.2 * 0.1 in doubles, which is 0.23000000000000004: neither the
  double 0.23 nor the number 23/100.
\<close>

theorem search_scenario_inexact:
  "search sc_qdrant sc_nebula [] (js ''query'') [js ''x''] sc_options
       = Inr [sc_result_a, sc_result_b]
   \<and> m_id (memory sc_result_b) = js ''b''
   \<and> combinedScore sc_result_b = 4143311657180857 / 18014398509481984
   \<and> dbl (23 / 100) = 8286623314361713 / 36028797018963968
   \<and> combinedScore sc_result_b \<noteq> dbl (23 / 100)
   \<and> combinedScore sc_result_b \<noteq> 23 / 100"
proof (intro conjI)
  show "search sc_qdrant sc_nebula [] (js ''query'') [js ''x''] sc_options
       = Inr [sc_result_a, sc_result_b]"
    by (rule sc_search)
qed (simp_all add: sc_result_b_def memoryOf_def scenario_doubles)

theorem search_provenance_witness:
  "search sc_qdrant sc_nebula [] (js ''query'') [js ''x''] sc_options
       = Inr [sc_result_a, sc_result_b]
   \<and> source sc_result_a = Vector \<and> graphScore sc_result_a = 0
   \<and> source sc_result_b = Graph \<and> graphScore sc_result_b = 7 / 10
   \<and> vectorScore sc_result_b = 0"
proof -
  have v: "q_search sc_qdrant [] (limitOf sc_options * 2) (minScoreOf sc_options)
          (category sc_options) (language sc_options)
        = Inr [\<lparr>point = sc_point (js ''a'') (5 / 10), score = 9 / 10\<rparr>]"
    by (simp add: sc_qdrant_def)
  from search_provenance [OF v sc_graphLookup, of "js ''query''"]
  obtain rs where rs: "search sc_qdrant sc_nebula [] (js ''query'') [js ''x''] sc_options = Inr rs"
    and each: "\<forall>r \<in> set rs.
          (m_id (memory r) \<in> (\<lambda>vr. pt_id (point vr)) ` set [\<lparr>point = sc_point (js ''a'') (5 / 10), score = 9 / 10\<rparr>]
             \<and> m_id (memory r) \<in> set [js ''b'']
           \<longrightarrow> graphScore r = 5 / 10 \<and> source r = Both)
        \<and> (m_id (memory r) \<in> (\<lambda>vr. pt_id (point vr)) ` set [\<lparr>point = sc_point (js ''a'') (5 / 10), score = 9 / 10\<rparr>]
             \<and> m_id (memory r) \<notin> set [js ''b'']
           \<longrightarrow> graphScore r = 0 \<and> source r = Vector)
        \<and> (m_id (memory r) \<notin> (\<lambda>vr. pt_id (point vr)) ` set [\<lparr>point = sc_point (js ''a'') (5 / 10), score = 9 / 10\<rparr>]
           \<longrightarrow> m_id (memory r) \<in> set [js ''b'']
               \<and> (\<exists>pt. q_getById sc_qdrant (m_id (memory r)) = Inr (Some pt))
               \<and> vectorScore r = 0 \<and> graphScore r = 7 / 10 \<and> source r = Graph)"
    by blast
  from rs have rs_eq: "rs = [sc_result_a, sc_result_b]" by (simp add: sc_search)
  have ida: "m_id (memory sc_result_a) = js ''a''" and idb: "m_id (memory sc_result_b) = js ''b''"
    by (simp_all add: sc_result_a_def sc_result_b_def memoryOf_def)
  from each have a: "graphScore sc_result_a = 0 \<and> source sc_result_a = Vector"
    unfolding rs_eq by (simp add: ida sc_point_def js_def)
  from each have b: "vectorScore sc_result_b = 0 \<and> graphScore sc_result_b = 7 / 10
      \<and> source sc_result_b = Graph"
    unfolding rs_eq by (simp add: idb sc_point_def js_def)
  from a b sc_search show ?thesis by simp
qed

section \<open>Failures of the collaborators\<close>

lemma addGraphResult_absentOnFailure:
  "addGraphResult (absentOnFailure q) m g = addGraphResult q m g"
  by (simp add: addGraphResult_def absentOnFailure_def split: sum.splits option.splits)

lemma fuse_absentOnFailure: "fuse (absentOnFailure q) vrs G = fuse q vrs G"
proof -
  have "addGraphResult (absentOnFailure q) = addGraphResult q"
    by (intro ext) (rule addGraphResult_absentOnFailure)
  then show ?thesis by (simp add: fuse_def)
qed

lemma search_absentOnFailure:
  "search (absentOnFailure q) n vector query entityNames options
   = search q n vector query entityNames options"
proof -
  have "q_search (absentOnFailure q) = q_search q" by (simp add: absentOnFailure_def)
  then show ?thesis by (simp add: search_def ranked_def fuse_absentOnFailure split: sum.splits)
qed

lemma graphLookup_not_asked:
  "\<not> ig \<or> entityNames = [] \<Longrightarrow> graphLookup n ig entityNames = Inr []"
  by (auto simp: graphLookup_def)

lemma search_graph_not_asked:
  assumes "\<not> includeGraphOf options \<or> entityNames = []"
  shows "search q n vector query entityNames options
         = search q n' vector query entityNames options"
  using graphLookup_not_asked [OF assms, of n] graphLookup_not_asked [OF assms, of n']
  by (simp add: search_def split: sum.splits)

lemma enrichOne_failure: "q_getById q (m_id (memory r)) = Inl e \<Longrightarrow> enrichOne h q r = r"
  by (simp add: enrichOne_def enrichAttempt_def)

text \<open>
  C4, as amended. \<open>enrichWithEntities\<close> never fails, and a result whose lookup throws is
  returned unmodified in its place. In \<open>search\<close>, a fetch by identifier that throws is
  read as "not found" (the identifier is skipped), so \<open>search\<close> returns whenever the
  vector search and the graph lookup return. A graph lookup that is not asked (graph
  disabled, or no entity names) is the empty set, whatever the state of the graph store.
  The vector search and the graph lookup themselves are not guarded: what they throw is
  what \<open>search\<close> throws.
\<close>

theorem collaborator_failures:
  "(\<exists>rs. enrichWithEntities h q results = Inr rs
        \<and> length rs = length results
        \<and> (\<forall>i < length results.
             (\<exists>e. q_getById q (m_id (memory (results ! i))) = Inl e) \<longrightarrow> rs ! i = results ! i))
   \<and> search q n vector query entityNames options
       = search (absentOnFailure q) n vector query entityNames options
   \<and> (\<forall>vectorResults graphMemoryIds.
         q_search q vector (limitOf options * 2) (minScoreOf options)
            (category options) (language options) = Inr vectorResults
         \<and> graphLookup n (includeGraphOf options) entityNames = Inr graphMemoryIds
         \<longrightarrow> (\<exists>rs. search q n vector query entityNames options = Inr rs))
   \<and> (\<not> includeGraphOf options \<or> entityNames = [] \<longrightarrow>
         graphLookup n (includeGraphOf options) entityNames = Inr []
         \<and> search q n vector query entityNames options
           = search q failing_nebula vector query entityNames options)
   \<and> (\<forall>e. q_search q vector (limitOf options * 2) (minScoreOf options)
            (category options) (language options) = Inl e
         \<longrightarrow> search q n vector query entityNames options = Inl e)
   \<and> (\<forall>vectorResults e.
         q_search q vector (limitOf options * 2) (minScoreOf options)
            (category options) (language options) = Inr vectorResults
         \<and> includeGraphOf options \<and> entityNames \<noteq> []
         \<and> findRelatedMemories n entityNames = Inl e
         \<longrightarrow> search q n vector query entityNames options = Inl e)"
proof (intro conjI)
  show "\<exists>rs. enrichWithEntities h q results = Inr rs
        \<and> length rs = length results
        \<and> (\<forall>i < length results.
             (\<exists>e. q_getById q (m_id (memory (results ! i))) = Inl e) \<longrightarrow> rs ! i = results ! i)"
    by (auto simp: enrichWithEntities_def enrichOne_failure)
  show "search q n vector query entityNames options
       = search (absentOnFailure q) n vector query entityNames options"
    by (simp add: search_absentOnFailure)
  show "\<forall>vectorResults graphMemoryIds.
         q_search q vector (limitOf options * 2) (minScoreOf options)
            (category options) (language options) = Inr vectorResults
         \<and> graphLookup n (includeGraphOf options) entityNames = Inr graphMemoryIds
         \<longrightarrow> (\<exists>rs. search q n vector query entityNames options = Inr rs)"
    by (simp add: search_def)
  show "\<not> includeGraphOf options \<or> entityNames = [] \<longrightarrow>
         graphLookup n (includeGraphOf options) entityNames = Inr []
         \<and> search q n vector query entityNames options
           = search q failing_nebula vector query entityNames options"
    using graphLookup_not_asked [of "includeGraphOf options" entityNames n]
      search_graph_not_asked [of options entityNames q n vector query failing_nebula]
    by blast
  show "\<forall>e. q_search q vector (limitOf options * 2) (minScoreOf options)
            (category options) (language options) = Inl e
         \<longrightarrow> search q n vector query entityNames options = Inl e"
    by (simp add: search_def)
  show "\<forall>vectorResults e.
         q_search q vector (limitOf options * 2) (minScoreOf options)
            (category options) (language options) = Inr vectorResults
         \<and> includeGraphOf options \<and> entityNames \<noteq> []
         \<and> findRelatedMemories n entityNames = Inl e
         \<longrightarrow> search q n vector query entityNames options = Inl e"
    by (simp add: search_def graphLookup_def)
qed

text \<open>
  The claim as it was stated fails: with the graph store down and one entity name,
  \<open>search\<close> does not continue with an empty set, it fails with the error of the lookup.
\<close>

theorem search_graph_failure_propagates:
  "search sc_qdrant failing_nebula [] (js ''query'') [js ''x''] sc_options
   = Inl (Thrown (js ''graph down''))"
  by (simp add: search_def graphLookup_def failing_nebula_def sc_qdrant_def sc_options_def
      includeGraphOf_def)

lemma sc_search_unreachable:
  "search sc_qdrant_unreachable sc_nebula [] (js ''query'') [js ''x''] sc_options
   = Inr [sc_result_a]"
proof -
  have v: "q_search sc_qdrant_unreachable [] (limitOf sc_options * 2) (minScoreOf sc_options)
          (category sc_options) (language sc_options)
        = Inr [\<lparr>point = sc_point (js ''a'') (5 / 10), score = 9 / 10\<rparr>]"
    by (simp add: sc_qdrant_unreachable_def sc_qdrant_def)
  have f: "fuse sc_qdrant_unreachable
       [\<lparr>point = sc_point (js ''a'') (5 / 10), score = 9 / 10\<rparr>] [js ''b'']
     = [(js ''a'', sc_result_a\<lparr>combinedScore := 0\<rparr>)]"
    by (simp add: fuse_def addVectorResult_def vectorEntry_def addGraphResult_def
        mapHas_def sc_qdrant_unreachable_def sc_point_def sc_result_a_def js_def Let_def)
  from search_Inr [OF v sc_graphLookup]
  have s: "search sc_qdrant_unreachable sc_nebula [] (js ''query'') [js ''x''] sc_options
     = Inr (sliceFromStart (ranked sc_qdrant_unreachable
         [\<lparr>point = sc_point (js ''a'') (5 / 10), score = 9 / 10\<rparr>] [js ''b'']
         (hybridWeightOf sc_options)) (limitOf sc_options))" .
  show ?thesis
    unfolding s ranked_def f
    by (simp add: mapValues_def withCombinedScore_def
        sortByCombinedScore_def sliceFromStart_def limitOf_def hybridWeightOf_def
        sc_options_def sc_result_a_def memoryOf_def sc_payload_def
        dbl_literals scenario_doubles)
qed

theorem collaborator_failures_witness:
  "enrichWithEntities host_ascii sc_qdrant_unreachable [sc_result_a, sc_result_b]
     = Inr [sc_result_a, sc_result_b]
   \<and> search sc_qdrant_unreachable sc_nebula [] (js ''query'') [js ''x''] sc_options
     = Inr [sc_result_a]
   \<and> search (absentOnFailure sc_qdrant_unreachable) sc_nebula [] (js ''query'') [js ''x'']
        sc_options = Inr [sc_result_a]
   \<and> search sc_qdrant failing_nebula [] (js ''query'') [] sc_options = Inr [sc_result_a]"
proof -
  note c = collaborator_failures [of host_ascii sc_qdrant_unreachable
      "[sc_result_a, sc_result_b]" sc_nebula "[]" "js ''query''" "[js ''x'']" sc_options]
  from c obtain rs where rs: "enrichWithEntities host_ascii sc_qdrant_unreachable
        [sc_result_a, sc_result_b] = Inr rs" "length rs = 2"
    and same: "\<forall>i < 2. (\<exists>e. q_getById sc_qdrant_unreachable
          (m_id (memory ([sc_result_a, sc_result_b] ! i))) = Inl e)
        \<longrightarrow> rs ! i = [sc_result_a, sc_result_b] ! i"
    by auto
  have fails: "\<exists>e. q_getById sc_qdrant_unreachable i = Inl e" for i
    by (simp add: sc_qdrant_unreachable_def)
  from same fails have "rs ! 0 = sc_result_a" "rs ! 1 = sc_result_b" by auto
  with rs(2) have "rs = [sc_result_a, sc_result_b]"
    by (cases rs; cases "tl rs"; cases "tl (tl rs)") auto
  with rs(1) have e: "enrichWithEntities host_ascii sc_qdrant_unreachable
      [sc_result_a, sc_result_b] = Inr [sc_result_a, sc_result_b]" by simp
  from c have a: "search (absentOnFailure sc_qdrant_unreachable) sc_nebula [] (js ''query'')
        [js ''x''] sc_options = Inr [sc_result_a]"
    by (simp add: sc_search_unreachable)
  note c' = collaborator_failures [of host_ascii sc_qdrant "[]" sc_nebula "[]" "js ''query''"
      "[]" sc_options]
  from c' have eq: "search sc_qdrant sc_nebula [] (js ''query'') [] sc_options
      = search sc_qdrant failing_nebula [] (js ''query'') [] sc_options" by blast
  have "search sc_qdrant sc_nebula [] (js ''query'') [] sc_options = Inr [sc_result_a]"
  proof -
    have v: "q_search sc_qdrant [] (limitOf sc_options * 2) (minScoreOf sc_options)
          (category sc_options) (language sc_options)
        = Inr [\<lparr>point = sc_point (js ''a'') (5 / 10), score = 9 / 10\<rparr>]"
      by (simp add: sc_qdrant_def)
    have g: "graphLookup sc_nebula (includeGraphOf sc_options) [] = Inr []"
      by (simp add: graphLookup_def)
    have f: "fuse sc_qdrant [\<lparr>point = sc_point (js ''a'') (5 / 10), score = 9 / 10\<rparr>] []
       = [(js ''a'', sc_result_a\<lparr>combinedScore := 0\<rparr>)]"
      by (simp add: fuse_def addVectorResult_def vectorEntry_def sc_point_def
          sc_result_a_def js_def Let_def)
    show ?thesis
      unfolding search_Inr [OF v g] ranked_def f
      by (simp add: mapValues_def withCombinedScore_def
          sortByCombinedScore_def sliceFromStart_def limitOf_def hybridWeightOf_def
          sc_options_def sc_result_a_def memoryOf_def sc_payload_def
          dbl_literals scenario_doubles)
  qed
  with eq have n: "search sc_qdrant failing_nebula [] (js ''query'') [] sc_options
      = Inr [sc_result_a]" by simp
  from e a n sc_search_unreachable show ?thesis by simp
qed

section \<open>Enrichment\<close>

lemma enrichOne_frame:
  "(enrichOne h q r)\<lparr>memory := (memory (enrichOne h q r))
       \<lparr>m_entities := m_entities (memory r)\<rparr>\<rparr> = r"
  by (simp add: enrichOne_def enrichAttempt_def split: sum.splits option.splits)

lemma enrichOne_no_ids:
  "q_getById q (m_id (memory r)) = Inr (Some pt) \<Longrightarrow>
   p_entityIds (payload pt) = None \<or> p_entityIds (payload pt) = Some [] \<Longrightarrow>
   enrichOne h q r = r"
  by (auto simp: enrichOne_def enrichAttempt_def)

lemma enrichOne_fields:
  "m_id (memory (enrichOne h q r)) = m_id (memory r)
   \<and> m_text (memory (enrichOne h q r)) = m_text (memory r)
   \<and> m_category (memory (enrichOne h q r)) = m_category (memory r)
   \<and> m_importance (memory (enrichOne h q r)) = m_importance (memory r)
   \<and> m_language (memory (enrichOne h q r)) = m_language (memory r)
   \<and> m_createdAt (memory (enrichOne h q r)) = m_createdAt (memory r)
   \<and> vectorScore (enrichOne h q r) = vectorScore r
   \<and> graphScore (enrichOne h q r) = graphScore r
   \<and> combinedScore (enrichOne h q r) = combinedScore r
   \<and> source (enrichOne h q r) = source r"
  by (simp add: enrichOne_def enrichAttempt_def split: sum.splits option.splits)

text \<open>
  C10. \<open>enrichWithEntities\<close> returns a list of the same length in the same order; each
  element has the identifier, text, category, importance, language, creation time, the
  three scores and the provenance of the input element at its place, and differs from it
  in \<open>memory.entities\<close> at most; an element whose record has no entity identifiers (none
  or an empty list) is returned unchanged.
\<close>

theorem enrichWithEntities_frame:
  "\<exists>rs. enrichWithEntities h q results = Inr rs
     \<and> length rs = length results
     \<and> (\<forall>i < length results.
          m_id (memory (rs ! i)) = m_id (memory (results ! i))
          \<and> m_text (memory (rs ! i)) = m_text (memory (results ! i))
          \<and> m_category (memory (rs ! i)) = m_category (memory (results ! i))
          \<and> m_importance (memory (rs ! i)) = m_importance (memory (results ! i))
          \<and> m_language (memory (rs ! i)) = m_language (memory (results ! i))
          \<and> m_createdAt (memory (rs ! i)) = m_createdAt (memory (results ! i))
          \<and> vectorScore (rs ! i) = vectorScore (results ! i)
          \<and> graphScore (rs ! i) = graphScore (results ! i)
          \<and> combinedScore (rs ! i) = combinedScore (results ! i)
          \<and> source (rs ! i) = source (results ! i)
          \<and> (rs ! i)\<lparr>memory := (memory (rs ! i))
                \<lparr>m_entities := m_entities (memory (results ! i))\<rparr>\<rparr> = results ! i
          \<and> (\<forall>pt. q_getById q (m_id (memory (results ! i))) = Inr (Some pt)
                \<and> (p_entityIds (payload pt) = None \<or> p_entityIds (payload pt) = Some [])
              \<longrightarrow> rs ! i = results ! i))"
proof (rule exI [of _ "map (enrichOne h q) results"], intro conjI allI impI)
  show "enrichWithEntities h q results = Inr (map (enrichOne h q) results)"
    by (simp add: enrichWithEntities_def)
  show "length (map (enrichOne h q) results) = length results" by simp
next
  fix i assume i: "i < length results"
  then have nth: "map (enrichOne h q) results ! i = enrichOne h q (results ! i)" by simp
  note f = enrichOne_fields [of h q "results ! i"]
  show "m_id (memory (map (enrichOne h q) results ! i)) = m_id (memory (results ! i))"
    "m_text (memory (map (enrichOne h q) results ! i)) = m_text (memory (results ! i))"
    "m_category (memory (map (enrichOne h q) results ! i)) = m_category (memory (results ! i))"
    "m_importance (memory (map (enrichOne h q) results ! i)) = m_importance (memory (results ! i))"
    "m_language (memory (map (enrichOne h q) results ! i)) = m_language (memory (results ! i))"
    "m_createdAt (memory (map (enrichOne h q) results ! i)) = m_createdAt (memory (results ! i))"
    "vectorScore (map (enrichOne h q) results ! i) = vectorScore (results ! i)"
    "graphScore (map (enrichOne h q) results ! i) = graphScore (results ! i)"
    "combinedScore (map (enrichOne h q) results ! i) = combinedScore (results ! i)"
    "source (map (enrichOne h q) results ! i) = source (results ! i)"
    unfolding nth using f by simp_all
  show "(map (enrichOne h q) results ! i)\<lparr>memory := (memory (map (enrichOne h q) results ! i))
                \<lparr>m_entities := m_entities (memory (results ! i))\<rparr>\<rparr> = results ! i"
    unfolding nth by (rule enrichOne_frame)
  fix pt
  assume "q_getById q (m_id (memory (results ! i))) = Inr (Some pt)
                \<and> (p_entityIds (payload pt) = None \<or> p_entityIds (payload pt) = Some [])"
  then show "map (enrichOne h q) results ! i = results ! i"
    unfolding nth using enrichOne_no_ids by blast
qed

lemma entityOfId_example:
  "entityOfId host_ascii (js ''person_john_smith'')
     = Some \<lparr>es_id = js ''person_john_smith'', es_name = js ''John Smith'',
              es_type = js ''person''\<rparr>"
  "entityOfId host_ascii (js ''unknown'') = None"
  by (simp_all add: entityOfId_def js_def host_ascii_def asciiUpper_def isWordChar_def Let_def)

lemma en_enrich:
  "enrichWithEntities host_ascii en_qdrant [sc_result_a, sc_result_b]
   = Inr [en_result_a, sc_result_b]"
proof -
  have a: "enrichOne host_ascii en_qdrant sc_result_a = en_result_a"
    by (simp add: enrichOne_def enrichAttempt_def en_qdrant_def en_result_a_def
        sc_result_a_def memoryOf_def sc_point_def List.map_filter_simps entityOfId_example)
  have b: "enrichOne host_ascii en_qdrant sc_result_b = sc_result_b"
    by (simp add: enrichOne_def enrichAttempt_def en_qdrant_def
        sc_result_b_def memoryOf_def sc_point_def sc_payload_def js_def)
  show ?thesis by (simp add: enrichWithEntities_def a b)
qed

theorem enrichWithEntities_frame_witness:
  "enrichWithEntities host_ascii en_qdrant [sc_result_a, sc_result_b]
     = Inr [en_result_a, sc_result_b]
   \<and> en_result_a\<lparr>memory := (memory en_result_a)\<lparr>m_entities := None\<rparr>\<rparr> = sc_result_a
   \<and> combinedScore en_result_a = combinedScore sc_result_a
   \<and> m_text (memory en_result_a) = m_text (memory sc_result_a)"
proof -
  from enrichWithEntities_frame [of host_ascii en_qdrant "[sc_result_a, sc_result_b]"]
  obtain rs where rs: "enrichWithEntities host_ascii en_qdrant [sc_result_a, sc_result_b] = Inr rs"
    and f: "\<forall>i < length [sc_result_a, sc_result_b].
          combinedScore (rs ! i) = combinedScore ([sc_result_a, sc_result_b] ! i)
          \<and> m_text (memory (rs ! i)) = m_text (memory ([sc_result_a, sc_result_b] ! i))
          \<and> (rs ! i)\<lparr>memory := (memory (rs ! i))
                \<lparr>m_entities := m_entities (memory ([sc_result_a, sc_result_b] ! i))\<rparr>\<rparr>
              = [sc_result_a, sc_result_b] ! i"
    by blast
  from rs have rs_eq: "rs = [en_result_a, sc_result_b]" by (simp add: en_enrich)
  have none: "m_entities (memory sc_result_a) = None"
    by (simp add: sc_result_a_def memoryOf_def)
  from f have "combinedScore (rs ! 0) = combinedScore sc_result_a
      \<and> m_text (memory (rs ! 0)) = m_text (memory sc_result_a)
      \<and> (rs ! 0)\<lparr>memory := (memory (rs ! 0))\<lparr>m_entities := m_entities (memory sc_result_a)\<rparr>\<rparr>
          = sc_result_a"
    by auto
  then show ?thesis using en_enrich by (simp add: rs_eq none)
qed

end
